theory Spec2Isabelle
  imports Main "HOL-Library.Word"
begin

text \<open>
  A model of the two scripts \<open>producer.py\<close> and \<open>consumer.py\<close>: the credential loader
  both share, the connection bootstrap, the two interaction loops and the shutdown in
  \<open>main\<close>. A function of the source becomes a function from what its surroundings do
  (the operator, the clock, the file system, the broker client) to the effects it has
  on them and to how it ends. The properties follow the definitions.
\<close>

section \<open>Text and bytes\<close>

text \<open>
  A Python \<open>str\<close> is a sequence of Unicode code points and is modelled as the list of
  their numbers (every element of a real \<open>str\<close> is below \<open>0x110000\<close>); a \<open>bytes\<close>
  object is a list of 8-bit words. \<open>py\<close> turns an ASCII literal of the source into
  its code points.
\<close>

type_synonym str = "nat list"
type_synonym bytes = "8 word list"

definition py :: "string \<Rightarrow> str" where
  "py = map of_char"

definition nl :: str where
  "nl = [10]"

text \<open>
  \<open>str.isspace\<close> for one code point: the set Python uses for \<open>strip()\<close> without
  arguments.
\<close>

definition isspace :: "nat \<Rightarrow> bool" where
  "isspace c \<longleftrightarrow>
     (0x09 \<le> c \<and> c \<le> 0x0D) \<or> (0x1C \<le> c \<and> c \<le> 0x20) \<or> c = 0x85 \<or> c = 0xA0 \<or>
     c = 0x1680 \<or> (0x2000 \<le> c \<and> c \<le> 0x200A) \<or> c = 0x2028 \<or> c = 0x2029 \<or>
     c = 0x202F \<or> c = 0x205F \<or> c = 0x3000"

definition lstrip :: "str \<Rightarrow> str" where
  "lstrip s = dropWhile isspace s"

definition rstrip :: "str \<Rightarrow> str" where
  "rstrip s = rev (dropWhile isspace (rev s))"

text \<open>\<open>s.strip()\<close>: skip whitespace from the left, then from the right.\<close>

definition strip :: "str \<Rightarrow> str" where
  "strip s = rev (dropWhile isspace (rev (dropWhile isspace s)))"

text \<open>
  \<open>s.lower()\<close>. An ASCII capital becomes its small letter and every other ASCII code
  point stays. For a code point from \<open>0x80\<close> on, Python consults the Unicode database
  (and, for the capital sigma, the neighbouring code points); that table is the
  parameter \<open>ucd\<close>, which receives the whole string and the position.
\<close>

definition lower_at :: "(str \<Rightarrow> nat \<Rightarrow> str) \<Rightarrow> str \<Rightarrow> nat \<Rightarrow> str" where
  "lower_at ucd s i =
     (let c = s ! i in
      if 0x41 \<le> c \<and> c \<le> 0x5A then [c + 0x20]
      else if c < 0x80 then [c]
      else ucd s i)"

definition lower :: "(str \<Rightarrow> nat \<Rightarrow> str) \<Rightarrow> str \<Rightarrow> str" where
  "lower ucd s = concat (map (lower_at ucd s) [0..<length s])"

text \<open>\<open>old in s\<close> for strings: \<open>old\<close> occurs in \<open>s\<close> as a contiguous piece.\<close>

fun contains :: "str \<Rightarrow> str \<Rightarrow> bool" where
  "contains [] old = (old = [])"
| "contains (c # s) old = (take (length old) (c # s) = old \<or> contains s old)"

text \<open>\<open>s.replace(old, new)\<close> for a one-character \<open>old\<close>.\<close>

definition replace_char :: "nat \<Rightarrow> str \<Rightarrow> str \<Rightarrow> str" where
  "replace_char old new s = concat (map (\<lambda>c. if c = old then new else [c]) s)"

subsection \<open>Numbers in text\<close>

text \<open>\<open>str(n)\<close> for a non-negative integer: its decimal digits.\<close>

function str_nat :: "nat \<Rightarrow> str" where
  "str_nat n = (if n < 10 then [0x30 + n] else str_nat (n div 10) @ [0x30 + n mod 10])"
  by pat_completeness auto
termination
  by (relation "measure id") auto

declare str_nat.simps [simp del]

definition hex_digit :: "nat \<Rightarrow> nat" where
  "hex_digit d = (if d < 10 then 0x30 + d else 0x57 + d)"

text \<open>The \<open>%02x\<close> of a byte value.\<close>

definition hex2 :: "nat \<Rightarrow> str" where
  "hex2 b = [hex_digit (b div 16), hex_digit (b mod 16)]"

text \<open>The \<open>%04x\<close> of a value below \<open>0x10000\<close>.\<close>

definition hex4 :: "nat \<Rightarrow> str" where
  "hex4 c = hex2 (c div 256) @ hex2 (c mod 256)"

subsection \<open>Local time\<close>

record struct_time =
  tm_year :: nat
  tm_mon :: nat
  tm_mday :: nat
  tm_hour :: nat
  tm_min :: nat
  tm_sec :: nat

text \<open>A two-digit field of \<open>strftime\<close>, padded with a zero.\<close>

definition pad2 :: "nat \<Rightarrow> str" where
  "pad2 n = (if n < 10 then 0x30 # str_nat n else str_nat n)"

text \<open>
  \<open>time.strftime(fmt)\<close> on the current local time \<open>t\<close>, for the directives the source
  uses (\<open>%Y %m %d %H %M %S\<close>); any other character is copied. The year is printed
  in decimal without padding.
\<close>

definition directive :: "nat \<Rightarrow> struct_time \<Rightarrow> str option" where
  "directive d t =
     (if d = 0x59 then Some (str_nat (tm_year t))
      else if d = 0x6D then Some (pad2 (tm_mon t))
      else if d = 0x64 then Some (pad2 (tm_mday t))
      else if d = 0x48 then Some (pad2 (tm_hour t))
      else if d = 0x4D then Some (pad2 (tm_min t))
      else if d = 0x53 then Some (pad2 (tm_sec t))
      else None)"

fun strftime :: "str \<Rightarrow> struct_time \<Rightarrow> str" where
  "strftime [] t = []"
| "strftime [c] t = [c]"
| "strftime (c # d # fmt) t =
     (if c = 0x25 then
        (case directive d t of
           Some field \<Rightarrow> field @ strftime fmt t
         | None \<Rightarrow> c # d # strftime fmt t)
      else c # strftime (d # fmt) t)"

definition timestamp_format :: str where
  "timestamp_format = py ''%Y-%m-%d %H:%M:%S''"

subsection \<open>Exceptions\<close>

text \<open>
  The exceptions the two scripts tell apart. The first four are subclasses of
  \<open>Exception\<close> and carry their \<open>str(e)\<close>; \<open>Error\<close> is any other subclass of
  \<open>Exception\<close>. \<open>KeyboardInterrupt\<close> and \<open>SystemExit\<close> derive from \<open>BaseException\<close>
  only.
\<close>

datatype exn =
    EOFError str
  | FileNotFoundError str
  | UnicodeError str
  | Error str
  | KeyboardInterrupt
  | SystemExit nat

fun is_Exception :: "exn \<Rightarrow> bool" where
  "is_Exception KeyboardInterrupt = False"
| "is_Exception (SystemExit code) = False"
| "is_Exception e = True"

fun str_exn :: "exn \<Rightarrow> str" where
  "str_exn (EOFError m) = m"
| "str_exn (FileNotFoundError m) = m"
| "str_exn (UnicodeError m) = m"
| "str_exn (Error m) = m"
| "str_exn KeyboardInterrupt = []"
| "str_exn (SystemExit code) = str_nat code"

subsection \<open>UTF-8\<close>

definition is_surrogate :: "nat \<Rightarrow> bool" where
  "is_surrogate c \<longleftrightarrow> 0xD800 \<le> c \<and> c \<le> 0xDFFF"

definition encode_char :: "nat \<Rightarrow> bytes" where
  "encode_char c =
     (if c < 0x80 then [of_nat c]
      else if c < 0x800 then [of_nat (0xC0 + c div 64), of_nat (0x80 + c mod 64)]
      else if c < 0x10000 then
        [of_nat (0xE0 + c div 4096), of_nat (0x80 + c div 64 mod 64), of_nat (0x80 + c mod 64)]
      else
        [of_nat (0xF0 + c div 262144), of_nat (0x80 + c div 4096 mod 64),
         of_nat (0x80 + c div 64 mod 64), of_nat (0x80 + c mod 64)])"

text \<open>
  The text of the \<open>UnicodeEncodeError\<close> for the first run of surrogates, which starts
  at position \<open>i\<close>.
\<close>

definition codec_cannot :: "string \<Rightarrow> str" where
  "codec_cannot verb = 0x27 # py ''utf-8'' @ 0x27 # py '' codec can't '' @ py verb"

definition encode_error :: "str \<Rightarrow> nat \<Rightarrow> str" where
  "encode_error s i =
     (let run = takeWhile is_surrogate (drop i s) in
      if length run = 1 then
        codec_cannot ''encode character '' @ [0x27, 0x5C, 0x75] @ hex4 (s ! i) @
        0x27 # py '' in position '' @ str_nat i @ py '': surrogates not allowed''
      else
        codec_cannot ''encode characters in position '' @ str_nat i @
        py ''-'' @ str_nat (i + length run - 1) @ py '': surrogates not allowed'')"

text \<open>\<open>s.encode('utf-8')\<close>: a lone surrogate cannot be encoded.\<close>

definition encode_utf8 :: "str \<Rightarrow> exn + bytes" where
  "encode_utf8 s =
     (let i = length (takeWhile (\<lambda>c. \<not> is_surrogate c) s) in
      if i < length s then Inl (UnicodeError (encode_error s i))
      else Inr (concat (map encode_char s)))"

text \<open>
  Decoding. A fault is the start and end position of the offending bytes, the first
  of those bytes, and the reason.
\<close>

datatype reason = InvalidStart | InvalidContinuation | UnexpectedEnd

type_synonym decode_fault = "nat \<times> nat \<times> nat \<times> reason"

definition is_cont :: "nat \<Rightarrow> bool" where
  "is_cont b \<longleftrightarrow> 0x80 \<le> b \<and> b \<le> 0xBF"

text \<open>
  The second byte of a sequence is restricted further after \<open>E0\<close>, \<open>ED\<close>, \<open>F0\<close> and
  \<open>F4\<close>, which excludes overlong forms, surrogates and values from \<open>0x110000\<close>.
\<close>

definition second_ok :: "nat \<Rightarrow> nat \<Rightarrow> bool" where
  "second_ok b c \<longleftrightarrow>
     (if b = 0xE0 then 0xA0 else if b = 0xF0 then 0x90 else 0x80) \<le> c \<and>
     c \<le> (if b = 0xED then 0x9F else if b = 0xF4 then 0x8F else 0xBF)"

definition prepend :: "nat \<Rightarrow> decode_fault + str \<Rightarrow> decode_fault + str" where
  "prepend c r = (case r of Inl f \<Rightarrow> Inl f | Inr s \<Rightarrow> Inr (c # s))"

fun decode_from :: "nat \<Rightarrow> nat list \<Rightarrow> decode_fault + str" where
  "decode_from i [] = Inr []"
| "decode_from i (b # bs) =
     (if b < 0x80 then prepend b (decode_from (i + 1) bs)
      else if b < 0xC2 \<or> 0xF4 < b then Inl (i, i + 1, b, InvalidStart)
      else
        (case bs of
           [] \<Rightarrow> Inl (i, i + 1, b, UnexpectedEnd)
         | c1 # r1 \<Rightarrow>
             if \<not> second_ok b c1 then Inl (i, i + 1, b, InvalidContinuation)
             else if b < 0xE0 then
               prepend ((b - 0xC0) * 64 + (c1 - 0x80)) (decode_from (i + 2) r1)
             else
               (case r1 of
                  [] \<Rightarrow> Inl (i, i + 2, b, UnexpectedEnd)
                | c2 # r2 \<Rightarrow>
                    if \<not> is_cont c2 then Inl (i, i + 2, b, InvalidContinuation)
                    else if b < 0xF0 then
                      prepend ((b - 0xE0) * 4096 + (c1 - 0x80) * 64 + (c2 - 0x80))
                        (decode_from (i + 3) r2)
                    else
                      (case r2 of
                         [] \<Rightarrow> Inl (i, i + 3, b, UnexpectedEnd)
                       | c3 # r3 \<Rightarrow>
                           if \<not> is_cont c3 then Inl (i, i + 3, b, InvalidContinuation)
                           else
                             prepend
                               ((b - 0xF0) * 262144 + (c1 - 0x80) * 4096 +
                                (c2 - 0x80) * 64 + (c3 - 0x80))
                               (decode_from (i + 4) r3)))))"

fun reason_text :: "reason \<Rightarrow> str" where
  "reason_text InvalidStart = py ''invalid start byte''"
| "reason_text InvalidContinuation = py ''invalid continuation byte''"
| "reason_text UnexpectedEnd = py ''unexpected end of data''"

text \<open>The text of the \<open>UnicodeDecodeError\<close>.\<close>

fun decode_error :: "decode_fault \<Rightarrow> str" where
  "decode_error (start, end, b, r) =
     (if end = start + 1 then
        codec_cannot ''decode byte 0x'' @ hex2 b @ py '' in position '' @
        str_nat start @ py '': '' @ reason_text r
      else
        codec_cannot ''decode bytes in position '' @ str_nat start @
        py ''-'' @ str_nat (end - 1) @ py '': '' @ reason_text r)"

text \<open>\<open>b.decode('utf-8')\<close>, strict.\<close>

definition decode_utf8 :: "bytes \<Rightarrow> exn + str" where
  "decode_utf8 data =
     (case decode_from 0 (map unat data) of
        Inl f \<Rightarrow> Inl (UnicodeError (decode_error f))
      | Inr s \<Rightarrow> Inr s)"

section \<open>The world outside the scripts\<close>

text \<open>
  Everything a script does to its surroundings is an effect, listed in the order in
  which it happens. A call into the broker client carries what the call gave back:
  \<open>Inl\<close> the exception it raised, \<open>Inr\<close> its value. Writing to standard output is
  taken to succeed, with one exception: the lines the consumer prints for a message
  stand between counting the message and acknowledging it, and one of them carries the
  payload, text from outside that standard output may be unable to encode; each of
  these writes has an outcome of its own, and \<open>StdoutRaised\<close> is the write that raised.
  An exception from outside (an interrupt) is taken to arrive inside one of the calls
  that wait: \<open>input\<close>, \<open>open\<close>, \<open>send\<close>, \<open>receive\<close>, \<open>acknowledge\<close>, \<open>sleep\<close>, \<open>close\<close> and the
  two calls that build the session and the channel handle.
\<close>

text \<open>
  A message of the broker, as far as the consumer looks at it: what \<open>msg.data()\<close> and
  \<open>msg.message_id()\<close> return (the identifier as the text that is printed for it).
\<close>

record message =
  data :: bytes
  message_id :: str

datatype effect =
    Stdout str
  | StdoutRaised str exn
  | Input str
  | OpenFile str
  | NewClient str str
  | CreateProducer str str
  | Subscribe str str str
  | Send bytes "exn + str"
  | Receive nat "exn + message"
  | Acknowledge message "exn + unit"
  | Sleep nat
  | CloseChannel "exn + unit"
  | CloseClient "exn + unit"

text \<open>\<open>print(s)\<close> writes \<open>s\<close> and a newline.\<close>

definition println :: "str \<Rightarrow> effect" where
  "println s = Stdout (s @ nl)"

text \<open>
  What a function call comes to: it returns, it raises, or it is still waiting inside a
  blocking call when the described behaviour of the surroundings is used up.
\<close>

datatype 'a result = Returns 'a | Raises exn | Pending

text \<open>
  One run of a script meets: the path separator of the host, the token files (what
  opening and reading a path gives), what building the client session and the channel
  handle gives, one entry for each turn of the interaction loop, and what the two
  \<open>close()\<close> calls give.
\<close>

record 'r world =
  os_sep :: str
  files :: "str \<Rightarrow> exn + str"
  new_client :: "exn + unit"
  new_channel :: "exn + unit"
  rounds :: "'r list"
  close_channel :: "exn + unit"
  close_client :: "exn + unit"

section \<open>Credential loader\<close>

definition read_token_from_file ::
  "str \<Rightarrow> (str \<Rightarrow> exn + str) \<Rightarrow> str \<Rightarrow> effect list \<times> str result" where
  "read_token_from_file sep fs token_file =
     (let windows_path = replace_char 0x2F sep token_file in
      case fs windows_path of
        Inr content \<Rightarrow> ([OpenFile windows_path], Returns (strip content))
      | Inl (FileNotFoundError m) \<Rightarrow>
          ([OpenFile windows_path,
            println (py ''Error: Token file '' @ windows_path @ py '' not found!''),
            println (py ''Please run setup-pulsar-jwt.bat first to generate the required tokens.'')],
           Raises (SystemExit 1))
      | Inl e \<Rightarrow>
          if is_Exception e then
            ([OpenFile windows_path, println (py ''Error reading token file: '' @ str_exn e)],
             Raises (SystemExit 1))
          else ([OpenFile windows_path], Raises e))"

section \<open>Connection bootstrap\<close>

definition service_url :: str where
  "service_url = py ''pulsar://localhost:6650''"

definition topic :: str where
  "topic = py ''persistent://public/default/test-topic''"

text \<open>The \<open>except Exception\<close> clause of \<open>create_producer\<close> and \<open>create_consumer\<close>.\<close>

definition connect_failed :: "effect list \<Rightarrow> exn \<Rightarrow> effect list \<times> unit result" where
  "connect_failed t e =
     (if is_Exception e then
        (t @ [println (py ''Error connecting to Pulsar: '' @ str_exn e),
              println (10 # py ''Troubleshooting tips:''),
              println (py ''1. Ensure Pulsar cluster is running: docker-compose up -d''),
              println (py ''2. Ensure JWT tokens are generated: run setup-pulsar-jwt.bat''),
              println (py ''3. Ensure permissions are set up: run setup-pulsar-jwt.bat''),
              println (py ''4. Check if broker is accessible on localhost:6650'')],
         Raises (SystemExit 1))
      else (t, Raises e))"

definition create_producer :: "'r world \<Rightarrow> effect list \<times> unit result" where
  "create_producer w =
     (let token_file = py ''tokens/client1-token.txt'' in
      case read_token_from_file (os_sep w) (files w) token_file of
        (t, Raises e) \<Rightarrow> (t, Raises e)
      | (t, Pending) \<Rightarrow> (t, Pending)
      | (t, Returns jwt_token) \<Rightarrow>
          (let t1 = t @ [println (py ''Connecting to Pulsar broker with JWT authentication...''),
                        println (py ''Using token from: '' @ token_file),
                        NewClient service_url jwt_token] in
           case new_client w of
             Inl e \<Rightarrow> connect_failed t1 e
           | Inr u \<Rightarrow>
               (let t2 = t1 @ [CreateProducer topic (py ''client1-producer'')] in
                case new_channel w of
                  Inl e \<Rightarrow> connect_failed t2 e
                | Inr u \<Rightarrow>
                    (t2 @ [println (py ''Successfully connected to Pulsar broker!''),
                           println (py ''Producer created for topic: '' @ topic)],
                     Returns ()))))"

definition create_consumer :: "'r world \<Rightarrow> effect list \<times> unit result" where
  "create_consumer w =
     (let token_file = py ''tokens/client2-token.txt'' in
      case read_token_from_file (os_sep w) (files w) token_file of
        (t, Raises e) \<Rightarrow> (t, Raises e)
      | (t, Pending) \<Rightarrow> (t, Pending)
      | (t, Returns jwt_token) \<Rightarrow>
          (let t1 = t @ [println (py ''Connecting to Pulsar broker with JWT authentication...''),
                        println (py ''Using token from: '' @ token_file),
                        NewClient service_url jwt_token] in
           case new_client w of
             Inl e \<Rightarrow> connect_failed t1 e
           | Inr u \<Rightarrow>
               (let t2 = t1 @ [Subscribe topic (py ''client2-subscription'') (py ''client2-consumer'')] in
                case new_channel w of
                  Inl e \<Rightarrow> connect_failed t2 e
                | Inr u \<Rightarrow>
                    (t2 @ [println (py ''Successfully connected to Pulsar broker!''),
                           println (py ''Consumer created for topic: '' @ topic),
                           println (py ''Subscription: client2-subscription'')],
                     Returns ()))))"

section \<open>Interaction loops\<close>

text \<open>
  How one turn of a \<open>while True\<close> loop ends: with \<open>continue\<close> (or by reaching the end
  of the body), with \<open>break\<close>, or with an exception that leaves the inner \<open>try\<close>.
\<close>

datatype control = Continue | Break | Propagate exn

text \<open>
  The loop itself, over the turns the surroundings provide, from a message count:
  the way the loop was left, the count then, and the effects.
\<close>

fun while_true ::
  "('r \<Rightarrow> nat \<Rightarrow> control \<times> nat \<times> effect list) \<Rightarrow> 'r list \<Rightarrow> nat \<Rightarrow>
   unit result \<times> nat \<times> effect list" where
  "while_true body [] n = (Pending, n, [])"
| "while_true body (r # rs) n =
     (case body r n of
        (Continue, n', t) \<Rightarrow>
          (case while_true body rs n' of (res, n'', t') \<Rightarrow> (res, n'', t @ t'))
      | (Break, n', t) \<Rightarrow> (Returns (), n', t)
      | (Propagate e, n', t) \<Rightarrow> (Raises e, n', t))"

definition dashes :: str where
  "dashes = replicate 50 0x2D"

subsection \<open>Publish mode\<close>

text \<open>
  A turn of the producer's loop meets: what \<open>input\<close> gives, the local time when the
  message is stamped, and what \<open>producer.send\<close> gives (the text of the message id).
\<close>

record pub_round =
  typed :: "exn + str"
  clock :: struct_time
  sent :: "exn + str"

text \<open>The \<open>except EOFError\<close> and \<open>except Exception\<close> clauses of the inner \<open>try\<close>.\<close>

definition send_except :: "exn \<Rightarrow> nat \<Rightarrow> effect list \<Rightarrow> control \<times> nat \<times> effect list" where
  "send_except e message_count t =
     (case e of
        EOFError m \<Rightarrow> (Break, message_count, t @ [println (10 # py ''Received EOF, exiting...'')])
      | _ \<Rightarrow>
          if is_Exception e then
            (Continue, message_count, t @ [println (py ''Error sending message: '' @ str_exn e)])
          else (Propagate e, message_count, t))"

definition send_round ::
  "(str \<Rightarrow> nat \<Rightarrow> str) \<Rightarrow> pub_round \<Rightarrow> nat \<Rightarrow> control \<times> nat \<times> effect list" where
  "send_round ucd r message_count =
     (let t = [Input (py ''Enter message: '')] in
      case typed r of
        Inl e \<Rightarrow> send_except e message_count t
      | Inr line \<Rightarrow>
          (let user_message = strip line in
           if lower ucd user_message = py ''exit'' then
             (Break, message_count, t @ [println (py ''Exiting producer...'')])
           else if user_message = [] then
             (Continue, message_count, t @ [println (py ''Empty message, please enter some text.'')])
           else
             (let timestamped_message =
                    user_message @ py '' - '' @ strftime timestamp_format (clock r) in
              case encode_utf8 timestamped_message of
                Inl e \<Rightarrow> send_except e message_count t
              | Inr payload \<Rightarrow>
                  (let t1 = t @ [Send payload (sent r)] in
                   case sent r of
                     Inl e \<Rightarrow> send_except e message_count t1
                   | Inr msg_id \<Rightarrow>
                       (Continue, message_count + 1,
                        t1 @ [println (0x2713 # py '' Message sent successfully - ID: '' @ msg_id),
                              println []])))))"

definition send_messages_interactive ::
  "(str \<Rightarrow> nat \<Rightarrow> str) \<Rightarrow> pub_round list \<Rightarrow> effect list \<times> unit result" where
  "send_messages_interactive ucd rs =
     (let t = [println (10 # py ''Ready to send messages!''),
               println (py ''Type your message and press Enter to send.''),
               println (py ''Type 'exit' to quit or press Ctrl+C to stop.''),
               println dashes] in
      case while_true (send_round ucd) rs 0 of
        (res, message_count, t1) \<Rightarrow>
          (let totals = [println (10 # py ''Total messages sent: '' @ str_nat message_count),
                         println (py ''Producer session ended.'')] in
           case res of
             Pending \<Rightarrow> (t @ t1, Pending)
           | Returns u \<Rightarrow> (t @ t1 @ totals, Returns ())
           | Raises e \<Rightarrow>
               if e = KeyboardInterrupt then
                 (t @ t1 @ [println (10 # py ''Received Ctrl+C, exiting...'')] @ totals, Returns ())
               else (t @ t1, Raises e)))"

subsection \<open>Subscribe mode\<close>

text \<open>
  A turn of the consumer's loop meets: what \<open>consumer.receive\<close> gives, which of the
  lines printed for the message raises, if any (its position, from 0, and the
  exception), the local time when the message is printed, what \<open>consumer.acknowledge\<close>
  gives, the whole seconds of \<open>time.time()\<close> read in the timeout branch, and what
  \<open>time.sleep\<close> gives.
\<close>

record sub_round =
  received :: "exn + message"
  shown :: "(nat \<times> exn) option"
  seen :: struct_time
  acked :: "exn + unit"
  epoch :: nat
  slept :: "exn + unit"

text \<open>The \<open>except Exception\<close> clause of the inner \<open>try\<close>.\<close>

definition receive_except ::
  "sub_round \<Rightarrow> exn \<Rightarrow> nat \<Rightarrow> effect list \<Rightarrow> control \<times> nat \<times> effect list" where
  "receive_except r e message_count t =
     (if is_Exception e then
        (if contains (str_exn e) (py ''Timeout'') then
           (if message_count = 0 \<or> epoch r mod 30 = 0 then
              (Continue, message_count, t @ [Stdout (py ''.'')])
            else (Continue, message_count, t))
         else
           (let t1 = t @ [println (py ''Error receiving message: '' @ str_exn e), Sleep 1] in
            case slept r of
              Inl e' \<Rightarrow> (Propagate e', message_count, t1)
            | Inr u \<Rightarrow> (Continue, message_count, t1)))
      else (Propagate e, message_count, t))"

text \<open>The five lines printed for a message.\<close>

definition message_lines :: "nat \<Rightarrow> message \<Rightarrow> str \<Rightarrow> struct_time \<Rightarrow> str list" where
  "message_lines message_count msg message_data now =
     [py ''Message '' @ str_nat message_count @ py '' received:'',
      py ''  ID: '' @ message_id msg,
      py ''  Data: '' @ message_data,
      py ''  Received at: '' @ strftime timestamp_format now,
      dashes]"

text \<open>
  One \<open>print\<close> for each line in turn. The write at the failing position, if there is one
  among the lines, raises and the lines after it are not reached: what was written, and
  the exception raised, if any.
\<close>

definition print_each :: "str list \<Rightarrow> (nat \<times> exn) option \<Rightarrow> effect list \<times> exn option" where
  "print_each ls failing =
     (case failing of
        None \<Rightarrow> (map println ls, None)
      | Some (k, e) \<Rightarrow>
          if k < length ls then
            (map println (take k ls) @ [StdoutRaised (ls ! k @ nl) e], Some e)
          else (map println ls, None))"

definition receive_round :: "sub_round \<Rightarrow> nat \<Rightarrow> control \<times> nat \<times> effect list" where
  "receive_round r message_count =
     (let t = [Receive 5000 (received r)] in
      case received r of
        Inl e \<Rightarrow> receive_except r e message_count t
      | Inr msg \<Rightarrow>
          (let message_count = message_count + 1 in
           case decode_utf8 (data msg) of
             Inl e \<Rightarrow> receive_except r e message_count t
           | Inr message_data \<Rightarrow>
               (case print_each (message_lines message_count msg message_data (seen r))
                       (shown r) of
                  (t1, Some e) \<Rightarrow> receive_except r e message_count (t @ t1)
                | (t1, None) \<Rightarrow>
                    (let t2 = t @ t1 @ [Acknowledge msg (acked r)] in
                     case acked r of
                       Inl e \<Rightarrow> receive_except r e message_count t2
                     | Inr u \<Rightarrow> (Continue, message_count, t2)))))"

definition consume_messages_continuous :: "sub_round list \<Rightarrow> effect list \<times> unit result" where
  "consume_messages_continuous rs =
     (let t = [println (10 # py ''Listening for messages continuously...''),
               println (py ''Press Ctrl+C to stop the consumer''),
               println dashes] in
      case while_true receive_round rs 0 of
        (res, message_count, t1) \<Rightarrow>
          (let totals = [println (10 # py ''Total messages consumed: '' @ str_nat message_count),
                         println (py ''Consumer session ended.'')] in
           case res of
             Pending \<Rightarrow> (t @ t1, Pending)
           | Returns u \<Rightarrow> (t @ t1 @ totals, Returns ())
           | Raises e \<Rightarrow>
               if e = KeyboardInterrupt then
                 (t @ t1 @ [println (10 # py ''Consumer interrupted by user'')] @ totals, Returns ())
               else (t @ t1, Raises e)))"

section \<open>Shutdown\<close>

text \<open>
  The \<open>finally\<close> block of \<open>main\<close>, entered with the exception that is on its way out
  (if any): the two \<open>close()\<close> calls in the order of the source. An exception raised
  inside the block ends it there and replaces the one on its way out.
\<close>

definition finally_close ::
  "str \<Rightarrow> str \<Rightarrow> 'r world \<Rightarrow> exn option \<Rightarrow> effect list \<times> unit result" where
  "finally_close closing closed w leaving =
     (let t = [println closing, CloseChannel (close_channel w)] in
      case close_channel w of
        Inl e \<Rightarrow> (t, Raises e)
      | Inr u \<Rightarrow>
          (let t1 = t @ [CloseClient (close_client w)] in
           case close_client w of
             Inl e \<Rightarrow> (t1, Raises e)
           | Inr u \<Rightarrow>
               (t1 @ [println closed],
                case leaving of None \<Rightarrow> Returns () | Some e \<Rightarrow> Raises e)))"

text \<open>
  The \<open>try\<close> statement of \<open>main\<close> around the interaction loop: \<open>KeyboardInterrupt\<close> is
  reported, anything else stays on its way out, and the \<open>finally\<close> block runs in
  every case in which the loop was left.
\<close>

definition guarded ::
  "str \<Rightarrow> str \<Rightarrow> str \<Rightarrow> 'r world \<Rightarrow> effect list \<times> unit result \<Rightarrow> effect list \<times> unit result" where
  "guarded interrupted closing closed w run =
     (case run of
        (t, Pending) \<Rightarrow> (t, Pending)
      | (t, Returns u) \<Rightarrow>
          (case finally_close closing closed w None of (t', res) \<Rightarrow> (t @ t', res))
      | (t, Raises e) \<Rightarrow>
          if e = KeyboardInterrupt then
            (case finally_close closing closed w None of
               (t', res) \<Rightarrow> (t @ [println interrupted] @ t', res))
          else
            (case finally_close closing closed w (Some e) of (t', res) \<Rightarrow> (t @ t', res)))"

definition rule_line :: str where
  "rule_line = replicate 50 0x3D"

definition producer_main ::
  "(str \<Rightarrow> nat \<Rightarrow> str) \<Rightarrow> pub_round world \<Rightarrow> effect list \<times> unit result" where
  "producer_main ucd w =
     (let t = [println rule_line,
               println (py ''Pulsar Producer with JWT Authentication''),
               println (py ''Client: client1 (Producer permissions)''),
               println rule_line] in
      case create_producer w of
        (t1, Raises e) \<Rightarrow> (t @ t1, Raises e)
      | (t1, Pending) \<Rightarrow> (t @ t1, Pending)
      | (t1, Returns u) \<Rightarrow>
          (case guarded (10 # py ''Producer interrupted by user'')
                  (10 # py ''Closing producer and client...'')
                  (py ''Producer closed successfully!'') w
                  (send_messages_interactive ucd (rounds w)) of
             (t2, res) \<Rightarrow> (t @ t1 @ t2, res)))"

definition consumer_main :: "sub_round world \<Rightarrow> effect list \<times> unit result" where
  "consumer_main w =
     (let t = [println rule_line,
               println (py ''Pulsar Consumer with JWT Authentication''),
               println (py ''Client: client2 (Consumer permissions)''),
               println rule_line] in
      case create_consumer w of
        (t1, Raises e) \<Rightarrow> (t @ t1, Raises e)
      | (t1, Pending) \<Rightarrow> (t @ t1, Pending)
      | (t1, Returns u) \<Rightarrow>
          (case guarded (10 # py ''Consumer interrupted by user'')
                  (10 # py ''Closing consumer and client...'')
                  (py ''Consumer closed successfully!'') w
                  (consume_messages_continuous (rounds w)) of
             (t2, res) \<Rightarrow> (t @ t1 @ t2, res)))"

section \<open>Reading a trace\<close>

text \<open>The paths of the files a run opened, in order.\<close>

fun opened :: "effect list \<Rightarrow> str list" where
  "opened [] = []"
| "opened (OpenFile p # t) = p # opened t"
| "opened (e # t) = opened t"

text \<open>The payloads handed to \<open>producer.send\<close>, in order.\<close>

fun payloads :: "effect list \<Rightarrow> bytes list" where
  "payloads [] = []"
| "payloads (Send p res # t) = p # payloads t"
| "payloads (e # t) = payloads t"

text \<open>The number of \<open>producer.send\<close> calls that returned.\<close>

fun delivered :: "effect list \<Rightarrow> nat" where
  "delivered [] = 0"
| "delivered (Send p (Inr msg_id) # t) = Suc (delivered t)"
| "delivered (e # t) = delivered t"

text \<open>The exception is an \<open>EOFError\<close>.\<close>

fun is_EOFError :: "exn \<Rightarrow> bool" where
  "is_EOFError (EOFError m) = True"
| "is_EOFError e = False"

text \<open>The messages handed to \<open>consumer.acknowledge\<close>, in order.\<close>

fun acknowledged :: "effect list \<Rightarrow> message list" where
  "acknowledged [] = []"
| "acknowledged (Acknowledge msg res # t) = msg # acknowledged t"
| "acknowledged (e # t) = acknowledged t"

text \<open>The number of \<open>consumer.receive\<close> calls.\<close>

fun polls :: "effect list \<Rightarrow> nat" where
  "polls [] = 0"
| "polls (Receive ms res # t) = Suc (polls t)"
| "polls (e # t) = polls t"

text \<open>The number of \<open>consumer.receive\<close> calls that returned a message.\<close>

fun arrivals :: "effect list \<Rightarrow> nat" where
  "arrivals [] = 0"
| "arrivals (Receive ms (Inr msg) # t) = Suc (arrivals t)"
| "arrivals (e # t) = arrivals t"

text \<open>The number of liveness markers written.\<close>

definition markers :: "effect list \<Rightarrow> nat" where
  "markers t = length (filter (\<lambda>e. e = Stdout (py ''.'')) t)"

text \<open>An effect that is not a poll, an acknowledgement or a write that raised.\<close>

fun silent :: "effect \<Rightarrow> bool" where
  "silent (Receive ms res) = False"
| "silent (Acknowledge msg res) = False"
| "silent (StdoutRaised s e) = False"
| "silent e = True"

text \<open>The payload of the message is valid UTF-8.\<close>

definition decodable :: "message \<Rightarrow> bool" where
  "decodable msg = (case decode_utf8 (data msg) of Inl e \<Rightarrow> False | Inr s \<Rightarrow> True)"

text \<open>Each of the five lines printed for the message of the turn is written.\<close>

definition all_shown :: "sub_round \<Rightarrow> bool" where
  "all_shown r = (case shown r of None \<Rightarrow> True | Some (k, e) \<Rightarrow> 5 \<le> k)"

text \<open>
  Every acknowledgement is for the message that the last poll returned, is made once,
  and is made before the next poll; a message whose payload is valid UTF-8 is owed one
  unless a write of the turn raises first. The first argument is the message still
  owed an acknowledgement.
\<close>

fun acks_in_turn :: "message option \<Rightarrow> effect list \<Rightarrow> bool" where
  "acks_in_turn owed [] = (owed = None)"
| "acks_in_turn owed (Receive ms res # t) =
     (owed = None \<and>
      acks_in_turn
        (case res of Inl e \<Rightarrow> None | Inr msg \<Rightarrow> if decodable msg then Some msg else None) t)"
| "acks_in_turn owed (Acknowledge msg res # t) = (owed = Some msg \<and> acks_in_turn None t)"
| "acks_in_turn owed (StdoutRaised s e # t) = acks_in_turn None t"
| "acks_in_turn owed (e # t) = acks_in_turn owed t"

text \<open>
  No message arrives in the turn: \<open>consumer.receive\<close> raises an \<open>Exception\<close>, as it does
  when its timeout runs out, and the pause of the turn, where the source makes one
  (the text of the exception does not contain \<open>Timeout\<close>), is not interrupted.
\<close>

definition no_message :: "sub_round \<Rightarrow> bool" where
  "no_message r =
     (case received r of
        Inl e \<Rightarrow>
          is_Exception e \<and> (contains (str_exn e) (py ''Timeout'') \<or> slept r = Inr ())
      | Inr msg \<Rightarrow> False)"

text \<open>The \<open>close()\<close> calls of a run, in order.\<close>

fun releases :: "effect list \<Rightarrow> effect list" where
  "releases [] = []"
| "releases (CloseChannel res # t) = CloseChannel res # releases t"
| "releases (CloseClient res # t) = CloseClient res # releases t"
| "releases (e # t) = releases t"

text \<open>A decimal digit.\<close>

definition isdigit :: "nat \<Rightarrow> bool" where
  "isdigit c \<longleftrightarrow> 0x30 \<le> c \<and> c \<le> 0x39"

section \<open>Sample surroundings\<close>

text \<open>A file system with one token file; every other path does not exist.\<close>

definition token_files :: "str \<Rightarrow> str \<Rightarrow> str \<Rightarrow> exn + str" where
  "token_files path content p =
     (if p = path then Inr content
      else Inl (FileNotFoundError (py ''[Errno 2] No such file or directory'')))"

text \<open>A file system without any token file.\<close>

definition no_token_files :: "str \<Rightarrow> exn + str" where
  "no_token_files p = Inl (FileNotFoundError (py ''[Errno 2] No such file or directory''))"

text \<open>A host where nothing else fails, with the given turns of the loop.\<close>

definition bare_world :: "'r list \<Rightarrow> 'r world" where
  "bare_world rs =
     \<lparr>os_sep = py ''/'', files = no_token_files, new_client = Inr (), new_channel = Inr (),
      rounds = rs, close_channel = Inr (), close_client = Inr ()\<rparr>"

text \<open>
  A host with the token file in place and a broker that accepts the connection, with
  the given turns of the loop and the given outcome of closing the channel handle.
\<close>

definition ready_world :: "str \<Rightarrow> 'r list \<Rightarrow> exn + unit \<Rightarrow> 'r world" where
  "ready_world token_path rs closing =
     \<lparr>os_sep = py ''/'', files = token_files token_path (py ''abc123'' @ nl),
      new_client = Inr (), new_channel = Inr (), rounds = rs,
      close_channel = closing, close_client = Inr ()\<rparr>"

text \<open>A case table that leaves every code point from \<open>0x80\<close> on as it is.\<close>

definition caseless_table :: "str \<Rightarrow> nat \<Rightarrow> str" where
  "caseless_table s i = [s ! i]"

text \<open>The first of January 2024, ten o'clock.\<close>

definition new_year :: struct_time where
  "new_year = \<lparr>tm_year = 2024, tm_mon = 1, tm_mday = 1, tm_hour = 10, tm_min = 0, tm_sec = 0\<rparr>"

text \<open>The operator types a line at that time and the broker accepts what is sent.\<close>

definition types :: "str \<Rightarrow> pub_round" where
  "types line = \<lparr>typed = Inr line, clock = new_year, sent = Inr (py ''(12,0,-1,0)'')\<rparr>"

text \<open>The operator types a line at that time and the broker refuses what is sent.\<close>

definition types_in_vain :: "str \<Rightarrow> pub_round" where
  "types_in_vain line =
     \<lparr>typed = Inr line, clock = new_year, sent = Inl (Error (py ''Pulsar error: ConnectError''))\<rparr>"

text \<open>The bytes of an ASCII literal.\<close>

definition ascii :: "string \<Rightarrow> bytes" where
  "ascii = map of_char"

text \<open>
  A receive that times out when the clock shows the given second. The exception of the
  broker client for a timeout has the text \<open>Pulsar error: TimeOut\<close>.
\<close>

definition timeout_at :: "nat \<Rightarrow> sub_round" where
  "timeout_at secs =
     \<lparr>received = Inl (Error (py ''Pulsar error: TimeOut'')), shown = None, seen = new_year,
      acked = Inr (), epoch = secs, slept = Inr ()\<rparr>"

text \<open>A receive that returns a message with the given payload.\<close>

definition arrives :: "bytes \<Rightarrow> sub_round" where
  "arrives payload =
     \<lparr>received = Inr \<lparr>data = payload, message_id = py ''(12,0,-1,0)''\<rparr>, shown = None,
      seen = new_year, acked = Inr (), epoch = 0, slept = Inr ()\<rparr>"

text \<open>
  The text of the exception when standard output, limited to ASCII, is to show an
  \<open>e\<close> with an acute accent in the payload line.
\<close>

definition cannot_show :: str where
  "cannot_show =
     0x27 # py ''ascii'' @ 0x27 # py '' codec can't encode character '' @ [0x27, 0x5C] @
     py ''xe9'' @ 0x27 # py '' in position 8: ordinal not in range(128)''"

text \<open>
  A receive that returns a message with the given payload, on a standard output that
  cannot show it: the third of the lines printed for the message raises.
\<close>

definition arrives_unshown :: "bytes \<Rightarrow> sub_round" where
  "arrives_unshown payload =
     \<lparr>received = Inr \<lparr>data = payload, message_id = py ''(12,0,-1,0)''\<rparr>,
      shown = Some (2, UnicodeError cannot_show), seen = new_year, acked = Inr (), epoch = 0,
      slept = Inr ()\<rparr>"

text \<open>The operator presses Ctrl+C while the consumer waits for a message.\<close>

definition ctrl_c :: sub_round where
  "ctrl_c =
     \<lparr>received = Inl KeyboardInterrupt, shown = None, seen = new_year, acked = Inr (),
      epoch = 0, slept = Inr ()\<rparr>"

section \<open>Properties of the text functions\<close>

lemma dropWhile_snoc_keep: "\<not> P x \<Longrightarrow> dropWhile P (xs @ [x]) = dropWhile P xs @ [x]"
  by (induction xs) auto

lemma rstrip_Cons_keep: "\<not> isspace c \<Longrightarrow> rstrip (c # s) = c # rstrip s"
  by (simp add: rstrip_def dropWhile_snoc_keep)

lemma rstrip_Cons_space: "isspace c \<Longrightarrow> rstrip (c # s) = (if rstrip s = [] then [] else c # rstrip s)"
  by (simp add: rstrip_def dropWhile_append)

lemma strip_lstrip_rstrip: "strip s = lstrip (rstrip s)"
proof (induction s)
  case Nil
  show ?case by (simp add: strip_def lstrip_def rstrip_def)
next
  case (Cons c s)
  show ?case
  proof (cases "isspace c")
    case True
    have "strip (c # s) = strip s" using True by (simp add: strip_def)
    moreover have "lstrip (rstrip (c # s)) = lstrip (rstrip s)"
      using True by (simp add: rstrip_Cons_space lstrip_def)
    ultimately show ?thesis using Cons by simp
  next
    case False
    have "strip (c # s) = rstrip (c # s)" using False by (simp add: strip_def rstrip_def)
    moreover have "lstrip (rstrip (c # s)) = rstrip (c # s)"
      using False by (simp add: rstrip_Cons_keep lstrip_def)
    ultimately show ?thesis by simp
  qed
qed

lemma strip_rstrip_lstrip: "strip s = rstrip (lstrip s)"
  by (simp add: strip_def rstrip_def lstrip_def)

lemma lstrip_split: "s = takeWhile isspace s @ lstrip s"
  by (simp add: lstrip_def)

lemma rstrip_split: "s = rstrip s @ rev (takeWhile isspace (rev s))"
  unfolding rstrip_def rev_append [symmetric] takeWhile_dropWhile_id by simp

lemma strip_split:
  "s = takeWhile isspace s @ strip s @ rev (takeWhile isspace (rev (lstrip s)))"
proof -
  have "lstrip s = strip s @ rev (takeWhile isspace (rev (lstrip s)))"
    using rstrip_split [of "lstrip s"] by (simp add: strip_rstrip_lstrip)
  then show ?thesis using lstrip_split [of s] by simp
qed

lemma lstrip_hd: "lstrip s = [] \<or> \<not> isspace (hd (lstrip s))"
  unfolding lstrip_def using hd_dropWhile by blast

lemma rstrip_last: "rstrip s = [] \<or> \<not> isspace (last (rstrip s))"
proof (cases "dropWhile isspace (rev s) = []")
  case True
  then show ?thesis by (simp add: rstrip_def)
next
  case False
  then have "\<not> isspace (hd (dropWhile isspace (rev s)))" by (rule hd_dropWhile)
  then show ?thesis using False by (simp add: rstrip_def last_rev)
qed

lemma strip_ends:
  "strip s = [] \<or> (\<not> isspace (hd (strip s)) \<and> \<not> isspace (last (strip s)))"
  using lstrip_hd [of "rstrip s"] rstrip_last [of "lstrip s"]
  by (auto simp: strip_lstrip_rstrip [symmetric] strip_rstrip_lstrip [symmetric])

text \<open>\<open>contains\<close> is the substring test.\<close>

lemma contains_iff: "contains s old \<longleftrightarrow> (\<exists>pre post. s = pre @ old @ post)"
proof (induction s)
  case Nil
  show ?case by auto
next
  case (Cons c s)
  show ?case
  proof
    assume "contains (c # s) old"
    then consider "take (length old) (c # s) = old" | "contains s old" by auto
    then show "\<exists>pre post. c # s = pre @ old @ post"
    proof cases
      case 1
      have "c # s = [] @ take (length old) (c # s) @ drop (length old) (c # s)" by simp
      then show ?thesis unfolding 1 by blast
    next
      case 2
      then obtain pre post where "s = pre @ old @ post" using Cons.IH by blast
      then have "c # s = (c # pre) @ old @ post" by simp
      then show ?thesis by blast
    qed
  next
    assume "\<exists>pre post. c # s = pre @ old @ post"
    then obtain pre post where eq: "c # s = pre @ old @ post" by blast
    show "contains (c # s) old"
    proof (cases pre)
      case Nil
      then have "take (length old) (c # s) = old" using eq by simp
      then show ?thesis by simp
    next
      case (Cons c' pre')
      then have "s = pre' @ old @ post" using eq by simp
      then have "contains s old" using Cons.IH by blast
      then show ?thesis by simp
    qed
  qed
qed

subsection \<open>Decoding what was encoded\<close>

lemma unat_byte: "n < 256 \<Longrightarrow> unat (of_nat n :: 8 word) = n"
  by (simp add: unat_of_nat)

lemma decode_one:
  "c < 0x80 \<Longrightarrow>
   decode_from i (map unat (encode_char c) @ rest) = prepend c (decode_from (i + 1) rest)"
  by (simp add: encode_char_def unat_byte)

lemma div_range: "(k::nat) * m \<le> c \<Longrightarrow> c < l * m \<Longrightarrow> k \<le> c div m \<and> c div m < l"
  by (metis div_le_mono div_mult_self_is_m less_mult_imp_div_less gr_zeroI mult_0_right not_less_zero nonzero_mult_div_cancel_right)

lemma div_is: "c div m = (q::nat) \<Longrightarrow> 0 < m \<Longrightarrow> q * m \<le> c \<and> c < (q + 1) * m"
proof -
  assume q: "c div m = q" and m: "0 < m"
  have "c = q * m + c mod m" using q by (metis div_mult_mod_eq)
  moreover have "c mod m < m" using m by simp
  ultimately show ?thesis by (simp add: algebra_simps) 
qed

lemma mod_shift:
  assumes "(k::nat) * m \<le> x" "x < k * m + r" "r \<le> m"
  shows "x mod m < r"
proof -
  have "x = (x - k * m) + k * m" using assms(1) by simp
  then have "x mod m = (x - k * m) mod m" by (metis mod_mult_self1 mult.commute)
  moreover have "x - k * m < m" using assms by linarith
  ultimately show ?thesis using assms by simp
qed

lemma split3: "(c::nat) = c div 4096 * 4096 + (c div 64 mod 64) * 64 + c mod 64"
proof -
  have 1: "c = c div 64 * 64 + c mod 64" by simp
  have 2: "c div 64 = c div 64 div 64 * 64 + c div 64 mod 64" by simp
  have 3: "c div 64 div 64 = c div 4096" by (simp add: div_mult2_eq [symmetric])
  have "c = (c div 4096 * 64 + c div 64 mod 64) * 64 + c mod 64"
    using 1 2 3 by metis
  then show ?thesis by (simp add: algebra_simps)
qed

lemma split4:
  "(c::nat) = c div 262144 * 262144 + (c div 4096 mod 64) * 4096 + (c div 64 mod 64) * 64 + c mod 64"
proof -
  have 1: "c div 4096 = c div 4096 div 64 * 64 + c div 4096 mod 64" by simp
  have 2: "c div 4096 div 64 = c div 262144" by (simp add: div_mult2_eq [symmetric])
  have 3: "c div 4096 * 4096 = c div 262144 * 262144 + (c div 4096 mod 64) * 4096"
  proof -
    have "c div 4096 * 4096 = (c div 262144 * 64 + c div 4096 mod 64) * 4096"
      using 1 2 by metis
    then show ?thesis by (simp add: algebra_simps)
  qed
  show ?thesis using split3 [of c] 3 by linarith
qed

lemma div_bounds_two: "0x80 \<le> (c::nat) \<Longrightarrow> c < 0x800 \<Longrightarrow> 2 \<le> c div 64 \<and> c div 64 < 32"
  by (simp add: less_mult_imp_div_less le_div_geq div_greater_zero_iff) 


lemma decode_step_two:
  assumes "0xC2 \<le> b" "b < 0xE0" "0x80 \<le> c1" "c1 \<le> 0xBF"
  shows "decode_from i (b # c1 # rest) =
           prepend ((b - 0xC0) * 64 + (c1 - 0x80)) (decode_from (i + 2) rest)"
  using assms by (simp add: second_ok_def)

lemma decode_two:
  assumes "0x80 \<le> c" "c < 0x800"
  shows "decode_from i (map unat (encode_char c) @ rest) = prepend c (decode_from (i + 2) rest)"
proof -
  have d: "2 \<le> c div 64" "c div 64 < 32" using div_bounds_two [OF assms] by simp_all
  have b: "0xC0 + c div 64 < 256" "0x80 + c mod 64 < 256" using d by simp_all
  have "encode_char c = [of_nat (0xC0 + c div 64), of_nat (0x80 + c mod 64)]"
    using assms by (simp add: encode_char_def del: of_nat_add)
  then have enc: "map unat (encode_char c) = [0xC0 + c div 64, 0x80 + c mod 64]"
    by (simp only: list.map unat_byte [OF b(1)] unat_byte [OF b(2)])
  have "decode_from i ((0xC0 + c div 64) # (0x80 + c mod 64) # rest) =
      prepend ((0xC0 + c div 64 - 0xC0) * 64 + (0x80 + c mod 64 - 0x80)) (decode_from (i + 2) rest)"
    by (rule decode_step_two) (use d in simp_all)
  then show ?thesis by (simp add: enc)
qed


lemma decode_step_three:
  assumes "0xE0 \<le> b" "b < 0xF0" "second_ok b c1" "is_cont c2"
  shows "decode_from i (b # c1 # c2 # rest) =
           prepend ((b - 0xE0) * 4096 + (c1 - 0x80) * 64 + (c2 - 0x80)) (decode_from (i + 3) rest)"
  using assms by simp

lemma decode_step_four:
  assumes "0xF0 \<le> b" "b \<le> 0xF4" "second_ok b c1" "is_cont c2" "is_cont c3"
  shows "decode_from i (b # c1 # c2 # c3 # rest) =
           prepend ((b - 0xF0) * 262144 + (c1 - 0x80) * 4096 + (c2 - 0x80) * 64 + (c3 - 0x80))
             (decode_from (i + 4) rest)"
  using assms by simp

lemma decode_three:
  assumes "0x800 \<le> c" "c < 0x10000" "\<not> is_surrogate c"
  shows "decode_from i (map unat (encode_char c) @ rest) = prepend c (decode_from (i + 3) rest)"
proof -
  let ?q = "c div 4096" and ?m = "c div 64 mod 64" and ?l = "c mod 64"
  have q: "?q < 16" using div_range [of 0 4096 c 16] assms by simp
  have m: "?m < 64" and l: "?l < 64" by simp_all
  have lo: "?q = 0 \<Longrightarrow> 32 \<le> ?m"
  proof -
    assume "?q = 0"
    then have "c < 4096" using div_is [of c 4096 0] by simp
    then have "32 \<le> c div 64 \<and> c div 64 < 64"
      using div_range [of 32 64 c 64] assms(1) by simp
    then show "32 \<le> ?m" by simp
  qed
  have hi: "?q = 13 \<Longrightarrow> ?m < 32"
  proof -
    assume "?q = 13"
    then have r: "53248 \<le> c \<and> c < 57344" using div_is [of c 4096 13] by simp
    then have "c < 55296" using assms(3) by (simp add: is_surrogate_def)
    then have "832 \<le> c div 64 \<and> c div 64 < 864"
      using div_range [of 832 64 c 864] r by simp
    then show "?m < 32" using mod_shift [of 13 64 "c div 64" 32] by simp
  qed
  have b: "0xE0 + ?q < 256" "0x80 + ?m < 256" "0x80 + ?l < 256" using q by simp_all
  have "encode_char c = [of_nat (0xE0 + ?q), of_nat (0x80 + ?m), of_nat (0x80 + ?l)]"
    using assms by (simp add: encode_char_def del: of_nat_add)
  then have enc: "map unat (encode_char c) = [0xE0 + ?q, 0x80 + ?m, 0x80 + ?l]"
    by (simp only: list.map unat_byte [OF b(1)] unat_byte [OF b(2)] unat_byte [OF b(3)])
  have ok: "second_ok (0xE0 + ?q) (0x80 + ?m)"
    using lo hi m q by (auto simp: second_ok_def)
  have "decode_from i ((0xE0 + ?q) # (0x80 + ?m) # (0x80 + ?l) # rest) =
      prepend ((0xE0 + ?q - 0xE0) * 4096 + (0x80 + ?m - 0x80) * 64 + (0x80 + ?l - 0x80))
        (decode_from (i + 3) rest)"
    by (rule decode_step_three) (use q ok in \<open>simp_all add: is_cont_def\<close>)
  moreover have "(0xE0 + ?q - 0xE0) * 4096 + (0x80 + ?m - 0x80) * 64 + (0x80 + ?l - 0x80) = c"
    using split3 [of c] by simp
  ultimately show ?thesis by (simp add: enc)
qed

lemma decode_four:
  assumes "0x10000 \<le> c" "c < 0x110000"
  shows "decode_from i (map unat (encode_char c) @ rest) = prepend c (decode_from (i + 4) rest)"
proof -
  let ?q = "c div 262144" and ?p = "c div 4096 mod 64" and ?m = "c div 64 mod 64"
    and ?l = "c mod 64"
  have q: "?q < 5" using div_range [of 0 262144 c 5] assms by simp
  have p: "?p < 64" and m: "?m < 64" and l: "?l < 64" by simp_all
  have lo: "?q = 0 \<Longrightarrow> 16 \<le> ?p"
  proof -
    assume "?q = 0"
    then have "c < 262144" using div_is [of c 262144 0] by simp
    then have "16 \<le> c div 4096 \<and> c div 4096 < 64"
      using div_range [of 16 4096 c 64] assms(1) by simp
    then show "16 \<le> ?p" by simp
  qed
  have hi: "?q = 4 \<Longrightarrow> ?p < 16"
  proof -
    assume "?q = 4"
    then have "1048576 \<le> c" using div_is [of c 262144 4] by simp
    then have "256 \<le> c div 4096 \<and> c div 4096 < 272"
      using div_range [of 256 4096 c 272] assms(2) by simp
    then show "?p < 16" using mod_shift [of 4 64 "c div 4096" 16] by simp
  qed
  have b: "0xF0 + ?q < 256" "0x80 + ?p < 256" "0x80 + ?m < 256" "0x80 + ?l < 256"
    using q by simp_all
  have "encode_char c =
      [of_nat (0xF0 + ?q), of_nat (0x80 + ?p), of_nat (0x80 + ?m), of_nat (0x80 + ?l)]"
    using assms by (simp add: encode_char_def del: of_nat_add)
  then have enc: "map unat (encode_char c) = [0xF0 + ?q, 0x80 + ?p, 0x80 + ?m, 0x80 + ?l]"
    by (simp only: list.map unat_byte [OF b(1)] unat_byte [OF b(2)] unat_byte [OF b(3)]
        unat_byte [OF b(4)])
  have ok: "second_ok (0xF0 + ?q) (0x80 + ?p)"
    using lo hi p q by (auto simp: second_ok_def)
  have "decode_from i ((0xF0 + ?q) # (0x80 + ?p) # (0x80 + ?m) # (0x80 + ?l) # rest) =
      prepend ((0xF0 + ?q - 0xF0) * 262144 + (0x80 + ?p - 0x80) * 4096 +
               (0x80 + ?m - 0x80) * 64 + (0x80 + ?l - 0x80))
        (decode_from (i + 4) rest)"
    by (rule decode_step_four) (use q ok in \<open>simp_all add: is_cont_def\<close>)
  moreover have "(0xF0 + ?q - 0xF0) * 262144 + (0x80 + ?p - 0x80) * 4096 +
      (0x80 + ?m - 0x80) * 64 + (0x80 + ?l - 0x80) = c"
    using split4 [of c] by simp
  ultimately show ?thesis by (simp add: enc)
qed


lemma decode_encode_char:
  assumes "c < 0x110000" "\<not> is_surrogate c"
  shows "\<exists>k. decode_from i (map unat (encode_char c) @ rest) = prepend c (decode_from (i + k) rest)"
proof -
  consider "c < 0x80" | "0x80 \<le> c" "c < 0x800" | "0x800 \<le> c" "c < 0x10000" | "0x10000 \<le> c"
    by linarith
  then show ?thesis
  proof cases
    case 1
    then show ?thesis using decode_one by blast
  next
    case 2
    then show ?thesis using decode_two by blast
  next
    case 3
    then show ?thesis using decode_three assms(2) by blast
  next
    case 4
    then show ?thesis using decode_four assms(1) by blast
  qed
qed

lemma decode_encoded:
  "list_all (\<lambda>c. c < 0x110000 \<and> \<not> is_surrogate c) s \<Longrightarrow>
   decode_from i (map unat (concat (map encode_char s))) = Inr s"
proof (induction s arbitrary: i)
  case Nil
  show ?case by simp
next
  case (Cons c s)
  then have c: "c < 0x110000" "\<not> is_surrogate c"
    and s: "list_all (\<lambda>c. c < 0x110000 \<and> \<not> is_surrogate c) s"
    by simp_all
  obtain k where "decode_from i (map unat (encode_char c) @ map unat (concat (map encode_char s))) =
      prepend c (decode_from (i + k) (map unat (concat (map encode_char s))))"
    using decode_encode_char [OF c] by blast
  then show ?case using Cons.IH [OF s, of "i + k"] by (simp add: prepend_def)
qed

text \<open>
  The two halves of the UTF-8 model agree: the bytes \<open>encode_utf8\<close> gives for a string of
  code points decode to that string.
\<close>

lemma utf8_round_trip:
  assumes "list_all (\<lambda>c. c < 0x110000) s" and "encode_utf8 s = Inr bs"
  shows "decode_utf8 bs = Inr s"
proof -
  have full: "\<not> length (takeWhile (\<lambda>c. \<not> is_surrogate c) s) < length s"
    using assms(2) by (auto simp: encode_utf8_def Let_def split: if_splits)
  then have "takeWhile (\<lambda>c. \<not> is_surrogate c) s = s"
    by (metis length_takeWhile_le le_neq_implies_less takeWhile_eq_take take_all_iff order_refl)
  then have "list_all (\<lambda>c. \<not> is_surrogate c) s"
    by (metis list_all_iff set_takeWhileD)
  then have all: "list_all (\<lambda>c. c < 0x110000 \<and> \<not> is_surrogate c) s"
    using assms(1) by (simp add: list_all_iff)
  have "bs = concat (map encode_char s)"
    using assms(2) full by (simp add: encode_utf8_def Let_def)
  then show ?thesis using decode_encoded [OF all, of 0] by (simp add: decode_utf8_def)
qed

section \<open>The credential loader\<close>

lemmas text_eval = py_def nl_def isspace_def strip_def lstrip_def rstrip_def replace_char_def println_def

text \<open>
  C5. For a token file that exists and can be read, the loader opens it once and
  returns its text with the surrounding whitespace trimmed: the text is the returned
  credential between two runs of whitespace, and the credential neither begins nor
  ends with whitespace. A file holding \<open>abc123\<close> and a newline gives \<open>abc123\<close>.
\<close>

theorem loader_returns_trimmed_content:
  assumes "fs (replace_char 0x2F sep token_file) = Inr content"
  shows "\<exists>before after.
           read_token_from_file sep fs token_file =
             ([OpenFile (replace_char 0x2F sep token_file)], Returns (strip content)) \<and>
           content = before @ strip content @ after \<and>
           list_all isspace before \<and> list_all isspace after \<and>
           (strip content = [] \<or>
            (\<not> isspace (hd (strip content)) \<and> \<not> isspace (last (strip content))))"
proof -
  let ?before = "takeWhile isspace content"
  let ?after = "rev (takeWhile isspace (rev (lstrip content)))"
  have run: "read_token_from_file sep fs token_file =
      ([OpenFile (replace_char 0x2F sep token_file)], Returns (strip content))"
    using assms by (simp add: read_token_from_file_def)
  have split: "content = ?before @ strip content @ ?after" by (rule strip_split)
  have b: "list_all isspace ?before"
    by (simp add: list_all_iff) (meson set_takeWhileD)
  have a: "list_all isspace ?after"
    by (simp add: list_all_iff) (meson set_takeWhileD)
  from run split b a strip_ends [of content] show ?thesis by blast
qed

theorem loader_returns_trimmed_content_witness:
  "token_files (py ''tokens/client1-token.txt'') (py ''abc123'' @ nl)
     (replace_char 0x2F (py ''/'') (py ''tokens/client1-token.txt'')) = Inr (py ''abc123'' @ nl) \<and>
   read_token_from_file (py ''/'')
     (token_files (py ''tokens/client1-token.txt'') (py ''abc123'' @ nl))
     (py ''tokens/client1-token.txt'') =
     ([OpenFile (py ''tokens/client1-token.txt'')], Returns (py ''abc123''))"
proof -
  have h: "token_files (py ''tokens/client1-token.txt'') (py ''abc123'' @ nl)
     (replace_char 0x2F (py ''/'') (py ''tokens/client1-token.txt'')) = Inr (py ''abc123'' @ nl)"
    by (simp add: token_files_def text_eval)
  show ?thesis
    using h loader_returns_trimmed_content
      [where fs = "token_files (py ''tokens/client1-token.txt'') (py ''abc123'' @ nl)"
         and sep = "py ''/''" and token_file = "py ''tokens/client1-token.txt''", OF h]
    by (simp add: text_eval)
qed

text \<open>
  A token file that begins with two spaces: the credential is not the text with only
  its trailing whitespace trimmed.
\<close>

theorem loader_trailing_only_counterexample:
  "snd (read_token_from_file (py ''/'')
          (token_files (py ''tokens/client1-token.txt'') (py ''  abc123'' @ nl))
          (py ''tokens/client1-token.txt'')) = Returns (py ''abc123'') \<and>
   rstrip (py ''  abc123'' @ nl) = py ''  abc123'' \<and>
   py ''abc123'' \<noteq> rstrip (py ''  abc123'' @ nl)"
  by (simp add: read_token_from_file_def token_files_def text_eval)

lemma lstrip_id_iff: "lstrip s = s \<longleftrightarrow> s = [] \<or> \<not> isspace (hd s)"
proof (cases s)
  case Nil
  then show ?thesis by (simp add: lstrip_def)
next
  case (Cons c s')
  show ?thesis
  proof (cases "isspace c")
    case True
    have "length (dropWhile isspace s') \<le> length s'" by (rule length_dropWhile_le)
    then have "dropWhile isspace s' \<noteq> c # s'" by auto
    then show ?thesis using Cons True by (simp add: lstrip_def)
  next
    case False
    then show ?thesis using Cons by (simp add: lstrip_def)
  qed
qed

text \<open>
  C6, as the code has it. The loader trims the leading whitespace as well as the
  trailing whitespace: the credential is the file's text with the trailing whitespace
  trimmed and then the leading whitespace trimmed, so it never begins with whitespace,
  and it is the text with only the trailing whitespace trimmed exactly when that text
  is empty or does not begin with whitespace.
\<close>

theorem loader_trims_both_ends:
  assumes "fs (replace_char 0x2F sep token_file) = Inr content"
  shows "snd (read_token_from_file sep fs token_file) = Returns (lstrip (rstrip content)) \<and>
         (lstrip (rstrip content) = [] \<or> \<not> isspace (hd (lstrip (rstrip content)))) \<and>
         (lstrip (rstrip content) = rstrip content \<longleftrightarrow>
            rstrip content = [] \<or> \<not> isspace (hd (rstrip content)))"
  using assms lstrip_hd [of "rstrip content"] lstrip_id_iff [of "rstrip content"]
  by (simp add: read_token_from_file_def strip_lstrip_rstrip)

theorem loader_trims_both_ends_witness:
  "token_files (py ''tokens/client2-token.txt'') ([9] @ py ''tok en '' @ nl)
     (replace_char 0x2F (py ''/'') (py ''tokens/client2-token.txt'')) =
     Inr ([9] @ py ''tok en '' @ nl) \<and>
   snd (read_token_from_file (py ''/'')
          (token_files (py ''tokens/client2-token.txt'') ([9] @ py ''tok en '' @ nl))
          (py ''tokens/client2-token.txt'')) = Returns (py ''tok en'') \<and>
   lstrip (rstrip ([9] @ py ''tok en '' @ nl)) \<noteq> rstrip ([9] @ py ''tok en '' @ nl)"
proof -
  have h: "token_files (py ''tokens/client2-token.txt'') ([9] @ py ''tok en '' @ nl)
     (replace_char 0x2F (py ''/'') (py ''tokens/client2-token.txt'')) =
     Inr ([9] @ py ''tok en '' @ nl)"
    by (simp add: token_files_def text_eval)
  show ?thesis
    using h loader_trims_both_ends
      [where fs = "token_files (py ''tokens/client2-token.txt'') ([9] @ py ''tok en '' @ nl)"
         and sep = "py ''/''" and token_file = "py ''tokens/client2-token.txt''", OF h]
    by (simp add: text_eval)
qed

lemma opened_append: "opened (t @ t') = opened t @ opened t'"
  by (induction t rule: opened.induct) auto

section \<open>A missing token file\<close>

lemma loader_missing:
  "fs (replace_char 0x2F sep token_file) = Inl (FileNotFoundError m) \<Longrightarrow>
   read_token_from_file sep fs token_file =
     ([OpenFile (replace_char 0x2F sep token_file),
       println (py ''Error: Token file '' @ replace_char 0x2F sep token_file @ py '' not found!''),
       println (py ''Please run setup-pulsar-jwt.bat first to generate the required tokens.'')],
      Raises (SystemExit 1))"
  by (simp add: read_token_from_file_def Let_def)

lemma create_producer_missing:
  "files w (replace_char 0x2F (os_sep w) (py ''tokens/client1-token.txt'')) =
     Inl (FileNotFoundError m) \<Longrightarrow>
   create_producer w =
     (fst (read_token_from_file (os_sep w) (files w) (py ''tokens/client1-token.txt'')),
      Raises (SystemExit 1))"
  by (simp add: create_producer_def loader_missing Let_def)

lemma create_consumer_missing:
  "files w (replace_char 0x2F (os_sep w) (py ''tokens/client2-token.txt'')) =
     Inl (FileNotFoundError m) \<Longrightarrow>
   create_consumer w =
     (fst (read_token_from_file (os_sep w) (files w) (py ''tokens/client2-token.txt'')),
      Raises (SystemExit 1))"
  by (simp add: create_consumer_def loader_missing Let_def)

text \<open>
  C9. When the token file's path does not resolve to an existing file, the loader
  makes one attempt to open it, prints the error and then the guidance to run the
  provisioning step, and raises \<open>SystemExit(1)\<close>. Nothing in \<open>main\<close> catches it: both
  processes end with exit status 1, the guidance is the last thing they print, and the
  file was opened once.
\<close>

theorem missing_token_file_exits:
  "(fs (replace_char 0x2F sep token_file) = Inl (FileNotFoundError m) \<longrightarrow>
      read_token_from_file sep fs token_file =
        ([OpenFile (replace_char 0x2F sep token_file),
          println (py ''Error: Token file '' @ replace_char 0x2F sep token_file @
                   py '' not found!''),
          println (py ''Please run setup-pulsar-jwt.bat first to generate the required tokens.'')],
         Raises (SystemExit 1))) \<and>
   (files w (replace_char 0x2F (os_sep w) (py ''tokens/client1-token.txt'')) =
      Inl (FileNotFoundError m1) \<longrightarrow>
      snd (producer_main ucd w) = Raises (SystemExit 1) \<and>
      last (fst (producer_main ucd w)) =
        println (py ''Please run setup-pulsar-jwt.bat first to generate the required tokens.'') \<and>
      opened (fst (producer_main ucd w)) =
        [replace_char 0x2F (os_sep w) (py ''tokens/client1-token.txt'')]) \<and>
   (files w' (replace_char 0x2F (os_sep w') (py ''tokens/client2-token.txt'')) =
      Inl (FileNotFoundError m2) \<longrightarrow>
      snd (consumer_main w') = Raises (SystemExit 1) \<and>
      last (fst (consumer_main w')) =
        println (py ''Please run setup-pulsar-jwt.bat first to generate the required tokens.'') \<and>
      opened (fst (consumer_main w')) =
        [replace_char 0x2F (os_sep w') (py ''tokens/client2-token.txt'')])"
proof (intro conjI impI)
  assume "fs (replace_char 0x2F sep token_file) = Inl (FileNotFoundError m)"
  then show "read_token_from_file sep fs token_file =
        ([OpenFile (replace_char 0x2F sep token_file),
          println (py ''Error: Token file '' @ replace_char 0x2F sep token_file @
                   py '' not found!''),
          println (py ''Please run setup-pulsar-jwt.bat first to generate the required tokens.'')],
         Raises (SystemExit 1))"
    by (rule loader_missing)
next
  assume h: "files w (replace_char 0x2F (os_sep w) (py ''tokens/client1-token.txt'')) =
      Inl (FileNotFoundError m1)"
  have run: "producer_main ucd w =
      ([println rule_line, println (py ''Pulsar Producer with JWT Authentication''),
        println (py ''Client: client1 (Producer permissions)''), println rule_line] @
       fst (read_token_from_file (os_sep w) (files w) (py ''tokens/client1-token.txt'')),
       Raises (SystemExit 1))"
    by (simp add: producer_main_def create_producer_missing [OF h] Let_def)
  show "snd (producer_main ucd w) = Raises (SystemExit 1)"
    by (simp add: run)
  show "last (fst (producer_main ucd w)) =
      println (py ''Please run setup-pulsar-jwt.bat first to generate the required tokens.'')"
    by (simp add: run loader_missing [where fs = "files w" and sep = "os_sep w", OF h])
  show "opened (fst (producer_main ucd w)) =
      [replace_char 0x2F (os_sep w) (py ''tokens/client1-token.txt'')]"
    by (simp add: run loader_missing [where fs = "files w" and sep = "os_sep w", OF h] println_def)
next
  assume h: "files w' (replace_char 0x2F (os_sep w') (py ''tokens/client2-token.txt'')) =
      Inl (FileNotFoundError m2)"
  have run: "consumer_main w' =
      ([println rule_line, println (py ''Pulsar Consumer with JWT Authentication''),
        println (py ''Client: client2 (Consumer permissions)''), println rule_line] @
       fst (read_token_from_file (os_sep w') (files w') (py ''tokens/client2-token.txt'')),
       Raises (SystemExit 1))"
    by (simp add: consumer_main_def create_consumer_missing [OF h] Let_def)
  show "snd (consumer_main w') = Raises (SystemExit 1)"
    by (simp add: run)
  show "last (fst (consumer_main w')) =
      println (py ''Please run setup-pulsar-jwt.bat first to generate the required tokens.'')"
    by (simp add: run loader_missing [where fs = "files w'" and sep = "os_sep w'", OF h])
  show "opened (fst (consumer_main w')) =
      [replace_char 0x2F (os_sep w') (py ''tokens/client2-token.txt'')]"
    by (simp add: run loader_missing [where fs = "files w'" and sep = "os_sep w'", OF h] println_def)
qed

theorem missing_token_file_exits_witness:
  "read_token_from_file (py ''/'') no_token_files (py ''tokens/client1-token.txt'') =
     ([OpenFile (py ''tokens/client1-token.txt''),
       println (py ''Error: Token file tokens/client1-token.txt not found!''),
       println (py ''Please run setup-pulsar-jwt.bat first to generate the required tokens.'')],
      Raises (SystemExit 1)) \<and>
   snd (producer_main (\<lambda>s i. [s ! i]) (bare_world [])) = Raises (SystemExit 1) \<and>
   opened (fst (producer_main (\<lambda>s i. [s ! i]) (bare_world []))) = [py ''tokens/client1-token.txt''] \<and>
   snd (consumer_main (bare_world [])) = Raises (SystemExit 1) \<and>
   opened (fst (consumer_main (bare_world []))) = [py ''tokens/client2-token.txt'']"
  using missing_token_file_exits
    [where fs = no_token_files and sep = "py ''/''" and token_file = "py ''tokens/client1-token.txt''"
       and m = "py ''[Errno 2] No such file or directory''"
       and ?m1.0 = "py ''[Errno 2] No such file or directory''"
       and ?m2.0 = "py ''[Errno 2] No such file or directory''"
       and w = "bare_world []" and w' = "bare_world []" and ucd = "\<lambda>s i. [s ! i]"]
  by (simp add: no_token_files_def bare_world_def text_eval)

section \<open>Publish mode\<close>

lemma payloads_append: "payloads (t @ t') = payloads t @ payloads t'"
  by (induction t rule: payloads.induct) auto

lemma delivered_append: "delivered (t @ t') = delivered t + delivered t'"
  by (induction t rule: delivered.induct) auto

lemma lower_four:
  "lower ucd [a, b, c, d] =
     lower_at ucd [a, b, c, d] 0 @ lower_at ucd [a, b, c, d] 1 @
     lower_at ucd [a, b, c, d] 2 @ lower_at ucd [a, b, c, d] 3"
proof -
  have "[0..<length [a, b, c, d]] = [0, 1, 2, 3]"
    by (simp add: upt_conv_Cons)
  then show ?thesis by (simp add: lower_def numeral_2_eq_2 numeral_3_eq_3)
qed

lemma lower_exit_spellings:
  assumes "a = 0x45 \<or> a = 0x65" and "b = 0x58 \<or> b = 0x78"
    and "c = 0x49 \<or> c = 0x69" and "d = 0x54 \<or> d = 0x74"
  shows "lower ucd [a, b, c, d] = py ''exit''"
proof -
  have a: "lower_at ucd [a, b, c, d] 0 = [0x65]"
    using assms(1) by (auto simp: lower_at_def)
  have b: "lower_at ucd [a, b, c, d] 1 = [0x78]"
    using assms(2) by (auto simp: lower_at_def)
  have c: "lower_at ucd [a, b, c, d] 2 = [0x69]"
    using assms(3) by (auto simp: lower_at_def)
  have d: "lower_at ucd [a, b, c, d] 3 = [0x74]"
    using assms(4) by (auto simp: lower_at_def)
  show ?thesis unfolding lower_four a b c d by (simp add: py_def)
qed

text \<open>
  C7. When the trimmed line, put in lower case, is \<open>exit\<close>, the turn ends the loop:
  nothing is handed to \<open>producer.send\<close>, the count of sent messages stays as it was,
  and the turns that would follow are not taken. Every spelling of the keyword in
  ASCII capitals and small letters passes the test (\<open>lower_exit_spellings\<close>).
\<close>

theorem exit_keyword_terminates:
  assumes "typed r = Inr line" and "lower ucd (strip line) = py ''exit''"
  shows "send_round ucd r n =
           (Break, n, [Input (py ''Enter message: ''), println (py ''Exiting producer...'')]) \<and>
         while_true (send_round ucd) (r # rs) n =
           (Returns (), n, [Input (py ''Enter message: ''), println (py ''Exiting producer...'')]) \<and>
         payloads (snd (snd (while_true (send_round ucd) (r # rs) n))) = []"
proof -
  have one: "send_round ucd r n =
      (Break, n, [Input (py ''Enter message: ''), println (py ''Exiting producer...'')])"
    using assms by (simp add: send_round_def Let_def)
  then show ?thesis by (simp add: println_def)
qed

lemma strip_padded_EXIT: "strip (py ''  EXIT '') = [0x45, 0x58, 0x49, 0x54]"
  by (simp add: text_eval)

theorem exit_keyword_terminates_witness:
  "typed (types (py ''  EXIT '')) = Inr (py ''  EXIT '') \<and>
   lower caseless_table (strip (py ''  EXIT '')) = py ''exit'' \<and>
   while_true (send_round caseless_table) [types (py ''  EXIT ''), types (py ''too late'')] 0 =
     (Returns (), 0, [Input (py ''Enter message: ''), println (py ''Exiting producer...'')])"
proof -
  have t: "typed (types (py ''  EXIT '')) = Inr (py ''  EXIT '')" by (simp add: types_def)
  have l: "lower caseless_table (strip (py ''  EXIT '')) = py ''exit''"
    unfolding strip_padded_EXIT by (rule lower_exit_spellings) simp_all
  show ?thesis using t l exit_keyword_terminates [OF t l] by simp
qed

section \<open>Timestamps and payloads\<close>

lemma str_nat_one: "n < 10 \<Longrightarrow> str_nat n = [0x30 + n]"
  by (simp add: str_nat.simps)

lemma str_nat_step: "10 \<le> n \<Longrightarrow> str_nat n = str_nat (n div 10) @ [0x30 + n mod 10]"
  by (subst str_nat.simps) simp

lemma str_nat_digits: "list_all isdigit (str_nat n)"
proof (induction n rule: str_nat.induct)
  case (1 n)
  show ?case
  proof (cases "n < 10")
    case True
    then show ?thesis by (simp add: str_nat_one isdigit_def)
  next
    case False
    have "n mod 10 < 10" by simp
    then have "isdigit (0x30 + n mod 10)" unfolding isdigit_def by linarith
    then show ?thesis using False 1 by (simp add: str_nat_step)
  qed
qed

lemma str_nat_length_two: "10 \<le> n \<Longrightarrow> n < 100 \<Longrightarrow> length (str_nat n) = 2"
  by (simp add: str_nat_step str_nat_one)

lemma str_nat_length_four: "1000 \<le> n \<Longrightarrow> n < 10000 \<Longrightarrow> length (str_nat n) = 4"
proof -
  assume a: "1000 \<le> n" "n < 10000"
  have 1: "str_nat n = str_nat (n div 10) @ [0x30 + n mod 10]"
    using a by (simp add: str_nat_step)
  have 2: "str_nat (n div 10) = str_nat (n div 10 div 10) @ [0x30 + n div 10 mod 10]"
    using a by (simp add: str_nat_step)
  have 3: "length (str_nat (n div 10 div 10)) = 2"
    using a by (intro str_nat_length_two) simp_all
  show ?thesis by (simp add: 1 2 3)
qed

lemma pad2_length: "n < 100 \<Longrightarrow> length (pad2 n) = 2"
  by (cases "n < 10") (simp_all add: pad2_def str_nat_one str_nat_length_two)

lemma pad2_digits: "list_all isdigit (pad2 n)"
  by (simp add: pad2_def str_nat_digits isdigit_def)

lemma timestamp_shape:
  "strftime timestamp_format t =
     str_nat (tm_year t) @ 0x2D # pad2 (tm_mon t) @ 0x2D # pad2 (tm_mday t) @ 0x20 #
     pad2 (tm_hour t) @ 0x3A # pad2 (tm_min t) @ 0x3A # pad2 (tm_sec t)"
  by (simp add: timestamp_format_def py_def directive_def)

lemma timestamp_length:
  assumes "1000 \<le> tm_year t" "tm_year t < 10000" "tm_mon t < 100" "tm_mday t < 100"
    "tm_hour t < 100" "tm_min t < 100" "tm_sec t < 100"
  shows "length (strftime timestamp_format t) = 19"
  using assms by (simp add: timestamp_shape str_nat_length_four pad2_length)

lemma new_year_stamp: "strftime timestamp_format new_year = py ''2024-01-01 10:00:00''"
  by (simp add: timestamp_shape new_year_def pad2_def str_nat_one str_nat_step py_def)

lemma encode_ascii:
  "list_all (\<lambda>c. c < 0x80) s \<Longrightarrow> encode_utf8 s = Inr (map of_nat s)"
proof -
  assume a: "list_all (\<lambda>c. c < 0x80) s"
  then have "list_all (\<lambda>c. \<not> is_surrogate c) s"
    by (induction s) (auto simp: is_surrogate_def)
  then have tw: "takeWhile (\<lambda>c. \<not> is_surrogate c) s = s"
    by (simp add: list_all_iff)
  have "concat (map encode_char s) = map of_nat s"
    using a by (induction s) (auto simp: encode_char_def)
  then show ?thesis by (simp add: encode_utf8_def tw)
qed

lemma send_round_sends:
  assumes "typed r = Inr line" and "strip line \<noteq> []"
    and "lower ucd (strip line) \<noteq> py ''exit''"
    and "encode_utf8 (strip line @ py '' - '' @ strftime timestamp_format (clock r)) = Inr payload"
  shows "send_round ucd r n =
     (case sent r of
        Inl e \<Rightarrow> send_except e n [Input (py ''Enter message: ''), Send payload (sent r)]
      | Inr msg_id \<Rightarrow>
          (Continue, n + 1,
           [Input (py ''Enter message: ''), Send payload (sent r),
            println (0x2713 # py '' Message sent successfully - ID: '' @ msg_id), println []]))"
  using assms by (simp add: send_round_def Let_def split: sum.split)

lemma send_except_trace:
  "\<exists>c ps. send_except e n t = (c, n, t @ ps) \<and> payloads ps = [] \<and> delivered ps = 0"
  by (cases e) (simp_all add: send_except_def println_def)

text \<open>
  C1, as the code has it. When the trimmed line is not empty and is not the exit
  keyword, and the stamped text can be encoded, exactly one payload is handed to
  \<open>producer.send\<close>: the UTF-8 bytes of the trimmed line, \<open>" - "\<close> and the local time as
  year, month, day, hour, minute and second, separated as in \<open>YYYY-MM-DD HH:MM:SS\<close>.
  When that call returns, the turn continues the loop with the count of sent messages
  one higher; when it raises, the count is as before.
\<close>

theorem stamped_payload_sent:
  assumes "typed r = Inr line" and "strip line \<noteq> []"
    and "lower ucd (strip line) \<noteq> py ''exit''"
    and "encode_utf8 (strip line @ py '' - '' @ strftime timestamp_format (clock r)) = Inr payload"
  shows "payloads (snd (snd (send_round ucd r n))) = [payload] \<and>
         strftime timestamp_format (clock r) =
           str_nat (tm_year (clock r)) @ 0x2D # pad2 (tm_mon (clock r)) @ 0x2D #
           pad2 (tm_mday (clock r)) @ 0x20 # pad2 (tm_hour (clock r)) @ 0x3A #
           pad2 (tm_min (clock r)) @ 0x3A # pad2 (tm_sec (clock r)) \<and>
         (case sent r of
            Inr msg_id \<Rightarrow>
              fst (send_round ucd r n) = Continue \<and> fst (snd (send_round ucd r n)) = n + 1
          | Inl e \<Rightarrow> fst (snd (send_round ucd r n)) = n)"
proof (cases "sent r")
  case (Inl e)
  obtain c ps where ex: "send_except e n [Input (py ''Enter message: ''), Send payload (sent r)] =
      (c, n, [Input (py ''Enter message: ''), Send payload (sent r)] @ ps)"
    and ps: "payloads ps = []"
    using send_except_trace by blast
  have "send_round ucd r n = (c, n, [Input (py ''Enter message: ''), Send payload (sent r)] @ ps)"
    using send_round_sends [OF assms, of n] Inl ex by simp
  then show ?thesis using Inl ps by (simp add: timestamp_shape payloads_append)
next
  case (Inr msg_id)
  have "send_round ucd r n =
      (Continue, n + 1,
       [Input (py ''Enter message: ''), Send payload (sent r),
        println (0x2713 # py '' Message sent successfully - ID: '' @ msg_id), println []])"
    using send_round_sends [OF assms, of n] Inr by simp
  then show ?thesis using Inr by (simp add: timestamp_shape println_def)
qed

lemma types_fields:
  "typed (types line) = Inr line" "clock (types line) = new_year"
  "sent (types line) = Inr (py ''(12,0,-1,0)'')"
  by (simp_all add: types_def)

lemma types_in_vain_fields:
  "typed (types_in_vain line) = Inr line" "clock (types_in_vain line) = new_year"
  "sent (types_in_vain line) = Inl (Error (py ''Pulsar error: ConnectError''))"
  by (simp_all add: types_in_vain_def)

lemma hello_stamped:
  "encode_utf8 (strip (py ''hello'') @ py '' - '' @ strftime timestamp_format new_year) =
     Inr (ascii ''hello - 2024-01-01 10:00:00'')"
proof -
  have "strip (py ''hello'') @ py '' - '' @ strftime timestamp_format new_year =
      py ''hello - 2024-01-01 10:00:00''"
    by (simp add: new_year_stamp text_eval)
  moreover have "encode_utf8 (py ''hello - 2024-01-01 10:00:00'') =
      Inr (map of_nat (py ''hello - 2024-01-01 10:00:00''))"
    by (rule encode_ascii) (simp add: py_def)
  ultimately show ?thesis by (simp add: py_def ascii_def)
qed

theorem stamped_payload_sent_witness:
  "typed (types (py ''hello'')) = Inr (py ''hello'') \<and>
   strip (py ''hello'') \<noteq> [] \<and>
   lower caseless_table (strip (py ''hello'')) \<noteq> py ''exit'' \<and>
   payloads (snd (snd (send_round caseless_table (types (py ''hello'')) 0))) =
     [ascii ''hello - 2024-01-01 10:00:00''] \<and>
   fst (snd (send_round caseless_table (types (py ''hello'')) 0)) = 1"
proof -
  have h1: "typed (types (py ''hello'')) = Inr (py ''hello'')" by (rule types_fields)
  have h2: "strip (py ''hello'') \<noteq> []" by (simp add: text_eval)
  have "length (lower caseless_table (strip (py ''hello''))) = 5"
    by (simp add: lower_def lower_at_def text_eval)
  then have h3: "lower caseless_table (strip (py ''hello'')) \<noteq> py ''exit''"
    by (auto simp: py_def)
  have h4: "encode_utf8 (strip (py ''hello'') @ py '' - '' @
      strftime timestamp_format (clock (types (py ''hello'')))) =
      Inr (ascii ''hello - 2024-01-01 10:00:00'')"
    by (simp only: types_fields hello_stamped)
  show ?thesis
    using h1 h2 h3 stamped_payload_sent [OF h1 h2 h3 h4, of 0] by (simp add: types_fields)
qed

lemma send_round_exit:
  "typed r = Inr line \<Longrightarrow> lower ucd (strip line) = py ''exit'' \<Longrightarrow>
   send_round ucd r n =
     (Break, n, [Input (py ''Enter message: ''), println (py ''Exiting producer...'')])"
  by (simp add: send_round_def Let_def)

lemma hi_stamped:
  "encode_utf8 (strip (py '' hi'') @ py '' - '' @ strftime timestamp_format new_year) =
     Inr (ascii ''hi - 2024-01-01 10:00:00'')"
proof -
  have "strip (py '' hi'') @ py '' - '' @ strftime timestamp_format new_year =
      py ''hi - 2024-01-01 10:00:00''"
    by (simp add: new_year_stamp text_eval)
  moreover have "encode_utf8 (py ''hi - 2024-01-01 10:00:00'') =
      Inr (map of_nat (py ''hi - 2024-01-01 10:00:00''))"
    by (rule encode_ascii) (simp add: py_def)
  ultimately show ?thesis by (simp add: py_def ascii_def)
qed

lemma padded_hi_stamped:
  "encode_utf8 (py '' hi'' @ py '' - '' @ strftime timestamp_format new_year) =
     Inr (ascii '' hi - 2024-01-01 10:00:00'')"
proof -
  have "py '' hi'' @ py '' - '' @ strftime timestamp_format new_year =
      py '' hi - 2024-01-01 10:00:00''"
    by (simp add: new_year_stamp py_def)
  moreover have "encode_utf8 (py '' hi - 2024-01-01 10:00:00'') =
      Inr (map of_nat (py '' hi - 2024-01-01 10:00:00''))"
    by (rule encode_ascii) (simp add: py_def)
  ultimately show ?thesis by (simp add: py_def ascii_def)
qed

text \<open>
  Three lines that are not empty. For \<open>" hi"\<close> the payload is made from the trimmed
  line \<open>"hi"\<close>, not from the line; for \<open>"exit"\<close> nothing is sent; for \<open>"hello"\<close> with a
  broker that refuses the message the count stays at 0.
\<close>

theorem every_nonempty_line_counterexample:
  "payloads (snd (snd (send_round caseless_table (types (py '' hi'')) 0))) =
     [ascii ''hi - 2024-01-01 10:00:00''] \<and>
   encode_utf8 (py '' hi'' @ py '' - '' @ strftime timestamp_format new_year) =
     Inr (ascii '' hi - 2024-01-01 10:00:00'') \<and>
   ascii ''hi - 2024-01-01 10:00:00'' \<noteq> ascii '' hi - 2024-01-01 10:00:00'' \<and>
   send_round caseless_table (types (py ''exit'')) 0 =
     (Break, 0, [Input (py ''Enter message: ''), println (py ''Exiting producer...'')]) \<and>
   fst (snd (send_round caseless_table (types_in_vain (py ''hello'')) 0)) = 0"
proof (intro conjI)
  have h2: "strip (py '' hi'') \<noteq> []" by (simp add: text_eval)
  have "length (lower caseless_table (strip (py '' hi''))) = 2"
    by (simp add: lower_def lower_at_def text_eval)
  then have h3: "lower caseless_table (strip (py '' hi'')) \<noteq> py ''exit''"
    by (auto simp: py_def)
  have h4: "encode_utf8 (strip (py '' hi'') @ py '' - '' @
      strftime timestamp_format (clock (types (py '' hi'')))) =
      Inr (ascii ''hi - 2024-01-01 10:00:00'')"
    by (simp only: types_fields hi_stamped)
  show "payloads (snd (snd (send_round caseless_table (types (py '' hi'')) 0))) =
      [ascii ''hi - 2024-01-01 10:00:00'']"
    using send_round_sends [OF types_fields(1) h2 h3 h4, of 0]
    by (simp add: types_fields println_def)
next
  show "encode_utf8 (py '' hi'' @ py '' - '' @ strftime timestamp_format new_year) =
      Inr (ascii '' hi - 2024-01-01 10:00:00'')"
    by (rule padded_hi_stamped)
next
  show "ascii ''hi - 2024-01-01 10:00:00'' \<noteq> ascii '' hi - 2024-01-01 10:00:00''"
    by (simp add: ascii_def)
next
  have "strip (py ''exit'') = [0x65, 0x78, 0x69, 0x74]" by (simp add: text_eval)
  then have "lower caseless_table (strip (py ''exit'')) = py ''exit''"
    by (simp add: lower_exit_spellings)
  then show "send_round caseless_table (types (py ''exit'')) 0 =
      (Break, 0, [Input (py ''Enter message: ''), println (py ''Exiting producer...'')])"
    by (rule send_round_exit [OF types_fields(1)])
next
  have h2: "strip (py ''hello'') \<noteq> []" by (simp add: text_eval)
  have "length (lower caseless_table (strip (py ''hello''))) = 5"
    by (simp add: lower_def lower_at_def text_eval)
  then have h3: "lower caseless_table (strip (py ''hello'')) \<noteq> py ''exit''"
    by (auto simp: py_def)
  have h4: "encode_utf8 (strip (py ''hello'') @ py '' - '' @
      strftime timestamp_format (clock (types_in_vain (py ''hello'')))) =
      Inr (ascii ''hello - 2024-01-01 10:00:00'')"
    by (simp only: types_in_vain_fields hello_stamped)
  show "fst (snd (send_round caseless_table (types_in_vain (py ''hello'')) 0)) = 0"
    using send_round_sends [OF types_in_vain_fields(1) h2 h3 h4, of 0]
    by (simp add: types_in_vain_fields send_except_def)
qed

lemma send_except_count:
  "fst (snd (send_except e n t)) = n \<and>
   delivered (snd (snd (send_except e n t))) = delivered t"
  by (cases e) (simp_all add: send_except_def println_def delivered_append)

lemma send_round_count:
  "fst (snd (send_round ucd r n)) = n + delivered (snd (snd (send_round ucd r n)))"
  by (simp add: send_round_def Let_def println_def send_except_count split: sum.split)

lemma publish_loop_count:
  "fst (snd (while_true (send_round ucd) rs n)) =
     n + delivered (snd (snd (while_true (send_round ucd) rs n)))"
proof (induction rs arbitrary: n)
  case Nil
  show ?case by simp
next
  case (Cons r rs)
  obtain c n' t where round: "send_round ucd r n = (c, n', t)"
    by (cases "send_round ucd r n") auto
  have n': "n' = n + delivered t" using send_round_count [of ucd r n] round by simp
  show ?case
  proof (cases c)
    case Continue
    obtain res n'' t' where rest: "while_true (send_round ucd) rs n' = (res, n'', t')"
      by (cases "while_true (send_round ucd) rs n'") auto
    have "n'' = n' + delivered t'" using Cons.IH [of n'] rest by simp
    then show ?thesis using round Continue rest n' by (simp add: delivered_append)
  next
    case Break
    then show ?thesis using round n' by simp
  next
    case (Propagate e)
    then show ?thesis using round n' by simp
  qed
qed

lemma failed_send_continues:
  assumes "Send payload (Inl e) \<in> set (snd (snd (send_round ucd r n)))"
    and "is_Exception e" and "\<not> is_EOFError e"
  shows "fst (send_round ucd r n) = Continue \<and> fst (snd (send_round ucd r n)) = n"
proof (cases "typed r")
  case (Inl e')
  have "snd (snd (send_round ucd r n)) =
      snd (snd (send_except e' n [Input (py ''Enter message: '')]))"
    using Inl by (simp add: send_round_def)
  then have False using assms(1)
    by (cases e') (auto simp: send_except_def println_def)
  then show ?thesis ..
next
  case (Inr line)
  show ?thesis
  proof (cases "encode_utf8 (strip line @ py '' - '' @ strftime timestamp_format (clock r))")
    case (Inl e')
    have "set (snd (snd (send_round ucd r n))) \<subseteq>
        insert (Input (py ''Enter message: '')) (range Stdout)"
      using Inr Inl by (cases e') (auto simp: send_round_def send_except_def println_def Let_def)
    then have False using assms(1) by auto
    then show ?thesis ..
  next
    case enc: (Inr p)
    show ?thesis
    proof (cases "lower ucd (strip line) = py ''exit'' \<or> strip line = []")
      case True
      have "set (snd (snd (send_round ucd r n))) \<subseteq>
          insert (Input (py ''Enter message: '')) (range Stdout)"
        using Inr True by (auto simp: send_round_def println_def Let_def)
      then have False using assms(1) by auto
      then show ?thesis ..
    next
      case False
      then have ne: "strip line \<noteq> []" and nx: "lower ucd (strip line) \<noteq> py ''exit''"
        by auto
      note run = send_round_sends [OF Inr ne nx enc, of n]
      show ?thesis
      proof (cases "sent r")
        case sent: (Inl e')
        have mem: "Send payload (Inl e) \<in>
            set (snd (snd (send_except e' n [Input (py ''Enter message: ''), Send p (Inl e')])))"
          using assms(1) run sent by simp
        have "e = e'"
          using mem by (cases e') (auto simp: send_except_def println_def)
        then show ?thesis
          using assms(2,3) run sent by (cases e') (simp_all add: send_except_def)
      next
        case sent: (Inr msg_id)
        have False using assms(1) run sent by (auto simp: println_def)
        then show ?thesis ..
      qed
    qed
  qed
qed

lemma delivered_println [simp]: "delivered (println s # t) = delivered t"
  by (simp add: println_def)

lemma reported_total:
  assumes "snd (send_messages_interactive ucd rs) = Returns ()"
  shows "\<exists>t. fst (send_messages_interactive ucd rs) =
           t @ [println (10 # py ''Total messages sent: '' @
                  str_nat (delivered (fst (send_messages_interactive ucd rs)))),
                println (py ''Producer session ended.'')]"
proof -
  obtain res m t1 where loop: "while_true (send_round ucd) rs 0 = (res, m, t1)"
    by (cases "while_true (send_round ucd) rs 0") auto
  have m: "m = delivered t1" using publish_loop_count [of ucd rs 0] loop by simp
  let ?intro = "[println (10 # py ''Ready to send messages!''),
      println (py ''Type your message and press Enter to send.''),
      println (py ''Type 'exit' to quit or press Ctrl+C to stop.''),
      println dashes]"
  let ?totals = "[println (10 # py ''Total messages sent: '' @ str_nat m),
      println (py ''Producer session ended.'')]"
  show ?thesis
  proof (cases res)
    case (Returns u)
    have run: "fst (send_messages_interactive ucd rs) = (?intro @ t1) @ ?totals"
      using loop Returns by (simp add: send_messages_interactive_def Let_def)
    have "delivered (fst (send_messages_interactive ucd rs)) = m"
      unfolding run by (simp add: delivered_append m)
    then show ?thesis using run by blast
  next
    case (Raises e)
    then have e: "e = KeyboardInterrupt"
      using assms loop by (auto simp: send_messages_interactive_def Let_def split: if_splits)
    have run: "fst (send_messages_interactive ucd rs) =
        (?intro @ t1 @ [println (10 # py ''Received Ctrl+C, exiting...'')]) @ ?totals"
      using loop Raises e by (simp add: send_messages_interactive_def Let_def)
    have "delivered (fst (send_messages_interactive ucd rs)) = m"
      unfolding run by (simp add: delivered_append m)
    then show ?thesis using run by blast
  next
    case Pending
    then have False using assms loop by (simp add: send_messages_interactive_def Let_def)
    then show ?thesis ..
  qed
qed

text \<open>
  C10. When \<open>producer.send\<close> was called and raised an exception (a subclass of
  \<open>Exception\<close> other than \<open>EOFError\<close>), the turn leaves the count as it was and the
  loop continues. After any turns the count is the starting count plus the number of
  \<open>producer.send\<close> calls that returned, and when \<open>send_messages_interactive\<close> returns,
  the total it prints is the number of such calls.
\<close>

theorem count_follows_successful_sends:
  "(Send payload (Inl e) \<in> set (snd (snd (send_round ucd r n))) \<and>
      is_Exception e \<and> \<not> is_EOFError e \<longrightarrow>
      fst (send_round ucd r n) = Continue \<and> fst (snd (send_round ucd r n)) = n) \<and>
   fst (snd (while_true (send_round ucd) rs n)) =
     n + delivered (snd (snd (while_true (send_round ucd) rs n))) \<and>
   (snd (send_messages_interactive ucd rs) = Returns () \<longrightarrow>
      (\<exists>t. fst (send_messages_interactive ucd rs) =
         t @ [println (10 # py ''Total messages sent: '' @
                str_nat (delivered (fst (send_messages_interactive ucd rs)))),
              println (py ''Producer session ended.'')]))"
  using failed_send_continues [of payload e ucd r n] publish_loop_count [of ucd rs n]
    reported_total [of ucd rs]
  by blast

lemma hello_not_exit:
  "strip (py ''hello'') \<noteq> []" "lower caseless_table (strip (py ''hello'')) \<noteq> py ''exit''"
proof -
  show "strip (py ''hello'') \<noteq> []" by (simp add: text_eval)
  have "length (lower caseless_table (strip (py ''hello''))) = 5"
    by (simp add: lower_def lower_at_def text_eval)
  then show "lower caseless_table (strip (py ''hello'')) \<noteq> py ''exit''"
    by (auto simp: py_def)
qed

lemma round_hello:
  "send_round caseless_table (types (py ''hello'')) n =
     (Continue, n + 1,
      [Input (py ''Enter message: ''),
       Send (ascii ''hello - 2024-01-01 10:00:00'') (Inr (py ''(12,0,-1,0)'')),
       println (0x2713 # py '' Message sent successfully - ID: '' @ py ''(12,0,-1,0)''),
       println []])"
proof -
  have h4: "encode_utf8 (strip (py ''hello'') @ py '' - '' @
      strftime timestamp_format (clock (types (py ''hello'')))) =
      Inr (ascii ''hello - 2024-01-01 10:00:00'')"
    by (simp only: types_fields hello_stamped)
  show ?thesis
    using send_round_sends [OF types_fields(1) hello_not_exit h4, of n]
    by (simp add: types_fields)
qed

lemma round_hello_in_vain:
  "send_round caseless_table (types_in_vain (py ''hello'')) n =
     (Continue, n,
      [Input (py ''Enter message: ''),
       Send (ascii ''hello - 2024-01-01 10:00:00'') (Inl (Error (py ''Pulsar error: ConnectError''))),
       println (py ''Error sending message: '' @ py ''Pulsar error: ConnectError'')])"
proof -
  have h4: "encode_utf8 (strip (py ''hello'') @ py '' - '' @
      strftime timestamp_format (clock (types_in_vain (py ''hello'')))) =
      Inr (ascii ''hello - 2024-01-01 10:00:00'')"
    by (simp only: types_in_vain_fields hello_stamped)
  show ?thesis
    using send_round_sends [OF types_in_vain_fields(1) hello_not_exit h4, of n]
    by (simp add: types_in_vain_fields send_except_def)
qed

lemma round_exit:
  "send_round caseless_table (types (py ''exit'')) n =
     (Break, n, [Input (py ''Enter message: ''), println (py ''Exiting producer...'')])"
proof -
  have "strip (py ''exit'') = [0x65, 0x78, 0x69, 0x74]" by (simp add: text_eval)
  then have "lower caseless_table (strip (py ''exit'')) = py ''exit''"
    by (simp add: lower_exit_spellings)
  then show ?thesis by (rule send_round_exit [OF types_fields(1)])
qed

theorem count_follows_successful_sends_witness:
  "Send (ascii ''hello - 2024-01-01 10:00:00'') (Inl (Error (py ''Pulsar error: ConnectError'')))
     \<in> set (snd (snd (send_round caseless_table (types_in_vain (py ''hello'')) 1))) \<and>
   is_Exception (Error (py ''Pulsar error: ConnectError'')) \<and>
   \<not> is_EOFError (Error (py ''Pulsar error: ConnectError'')) \<and>
   fst (send_round caseless_table (types_in_vain (py ''hello'')) 1) = Continue \<and>
   fst (snd (send_round caseless_table (types_in_vain (py ''hello'')) 1)) = 1 \<and>
   fst (snd (while_true (send_round caseless_table)
               [types (py ''hello''), types_in_vain (py ''hello''), types (py ''exit'')] 1)) = 2 \<and>
   snd (send_messages_interactive caseless_table
          [types (py ''hello''), types_in_vain (py ''hello''), types (py ''exit'')]) = Returns () \<and>
   delivered (fst (send_messages_interactive caseless_table
          [types (py ''hello''), types_in_vain (py ''hello''), types (py ''exit'')])) = 1"
  using count_follows_successful_sends
    [of "ascii ''hello - 2024-01-01 10:00:00''" "Error (py ''Pulsar error: ConnectError'')"
        caseless_table "types_in_vain (py ''hello'')" 1
        "[types (py ''hello''), types_in_vain (py ''hello''), types (py ''exit'')]"]
  by (simp add: round_hello round_hello_in_vain round_exit send_messages_interactive_def
      Let_def delivered_append)

section \<open>Subscribe mode\<close>

lemma acknowledged_append: "acknowledged (t @ t') = acknowledged t @ acknowledged t'"
  by (induction t rule: acknowledged.induct) auto

lemma polls_append: "polls (t @ t') = polls t + polls t'"
  by (induction t rule: polls.induct) auto

lemma arrivals_append: "arrivals (t @ t') = arrivals t + arrivals t'"
  by (induction t rule: arrivals.induct) auto

lemma markers_append: "markers (t @ t') = markers t + markers t'"
  by (simp add: markers_def)

lemma acks_in_turn_append:
  "acks_in_turn owed t \<Longrightarrow> acks_in_turn None t' \<Longrightarrow> acks_in_turn owed (t @ t')"
  by (induction owed t rule: acks_in_turn.induct) auto

lemma silent_calls:
  "list_all silent t \<Longrightarrow> acknowledged t = []"
  "list_all silent t \<Longrightarrow> polls t = 0"
  "list_all silent t \<Longrightarrow> arrivals t = 0"
  "list_all silent t \<Longrightarrow> acks_in_turn owed t = (owed = None)"
proof -
  show "list_all silent t \<Longrightarrow> acknowledged t = []"
    by (induction t rule: acknowledged.induct) auto
  show "list_all silent t \<Longrightarrow> polls t = 0"
    by (induction t rule: polls.induct) auto
  show "list_all silent t \<Longrightarrow> arrivals t = 0"
    by (induction t rule: arrivals.induct) auto
  show "list_all silent t \<Longrightarrow> acks_in_turn owed t = (owed = None)"
    by (induction owed t rule: acks_in_turn.induct) auto
qed

lemma acks_in_turn_silent_prefix:
  "list_all silent pre \<Longrightarrow> acks_in_turn owed (pre @ t) = acks_in_turn owed t"
  by (induction pre) (auto elim: silent.elims)

lemma acks_in_turn_silent_suffix:
  "list_all silent post \<Longrightarrow> acks_in_turn owed (t @ post) = acks_in_turn owed t"
  by (induction owed t rule: acks_in_turn.induct) (auto simp: silent_calls)

lemma silent_println: "list_all silent (map println ls)"
  by (induction ls) (simp_all add: println_def)

subsection \<open>The handler of the turn\<close>

lemma receive_except_timeout:
  assumes "is_Exception e" and "contains (str_exn e) (py ''Timeout'')"
  shows "receive_except r e n t =
     (Continue, n, t @ (if n = 0 \<or> epoch r mod 30 = 0 then [Stdout (py ''.'')] else []))"
  using assms by (simp add: receive_except_def)

lemma receive_except_error:
  assumes "is_Exception e" and "\<not> contains (str_exn e) (py ''Timeout'')"
  shows "receive_except r e n t =
     (case slept r of Inl e' \<Rightarrow> Propagate e' | Inr u \<Rightarrow> Continue, n,
      t @ [println (py ''Error receiving message: '' @ str_exn e), Sleep 1])"
  using assms by (simp add: receive_except_def Let_def split: sum.split)

lemma receive_except_shape:
  "\<exists>c post. list_all silent post \<and> receive_except r e n t = (c, n, t @ post)"
  by (auto simp: receive_except_def println_def Let_def split: sum.splits)

lemma receive_except_calls:
  "fst (snd (receive_except r e n t)) = n"
  "acknowledged (snd (snd (receive_except r e n t))) = acknowledged t"
  "polls (snd (snd (receive_except r e n t))) = polls t"
  "arrivals (snd (snd (receive_except r e n t))) = arrivals t"
  "acks_in_turn owed (snd (snd (receive_except r e n t))) = acks_in_turn owed t"
proof -
  obtain c post where post: "list_all silent post"
    and ex: "receive_except r e n t = (c, n, t @ post)"
    using receive_except_shape by blast
  show "fst (snd (receive_except r e n t)) = n" by (simp add: ex)
  show "acknowledged (snd (snd (receive_except r e n t))) = acknowledged t"
    by (simp add: ex acknowledged_append silent_calls post)
  show "polls (snd (snd (receive_except r e n t))) = polls t"
    by (simp add: ex polls_append silent_calls post)
  show "arrivals (snd (snd (receive_except r e n t))) = arrivals t"
    by (simp add: ex arrivals_append silent_calls post)
  show "acks_in_turn owed (snd (snd (receive_except r e n t))) = acks_in_turn owed t"
    by (simp add: ex acks_in_turn_silent_suffix post)
qed

subsection \<open>Turns without a message\<close>

lemma no_message_round:
  assumes "no_message r"
  shows "\<exists>t. receive_round r n = (Continue, n, t) \<and> acknowledged t = [] \<and> polls t = 1"
proof -
  obtain e where rec: "received r = Inl e" and exc: "is_Exception e"
    and quiet: "contains (str_exn e) (py ''Timeout'') \<or> slept r = Inr ()"
    using assms by (auto simp: no_message_def split: sum.splits)
  have round: "receive_round r n = receive_except r e n [Receive 5000 (Inl e)]"
    by (simp add: receive_round_def rec)
  show ?thesis
  proof (cases "contains (str_exn e) (py ''Timeout'')")
    case True
    show ?thesis
      unfolding round receive_except_timeout [OF exc True] by simp
  next
    case False
    then have "slept r = Inr ()" using quiet by simp
    then show ?thesis
      unfolding round receive_except_error [OF exc False] by (simp add: println_def)
  qed
qed

lemma no_message_loop:
  "list_all no_message rs \<Longrightarrow>
   \<exists>t. while_true receive_round rs n = (Pending, n, t) \<and> acknowledged t = [] \<and>
       polls t = length rs"
proof (induction rs)
  case Nil
  show ?case by simp
next
  case (Cons r rs)
  from Cons.prems have r: "no_message r" and rs: "list_all no_message rs" by simp_all
  obtain t where round: "receive_round r n = (Continue, n, t)"
    and t: "acknowledged t = []" "polls t = 1"
    using no_message_round [OF r] by blast
  obtain t' where rest: "while_true receive_round rs n = (Pending, n, t')"
    and t': "acknowledged t' = []" "polls t' = length rs"
    using Cons.IH [OF rs] by blast
  have "while_true receive_round (r # rs) n = (Pending, n, t @ t')"
    by (simp add: round rest)
  then show ?case using t t' by (simp add: acknowledged_append polls_append)
qed

text \<open>
  C8. Over any number of consecutive turns in which no message arrives, because the
  receive times out or raises any other \<open>Exception\<close>, the count of received messages
  stays what it was, \<open>consumer.acknowledge\<close> is never called, and the loop is still
  polling: it has made one poll per turn and has not been left.
\<close>

theorem timeouts_change_nothing:
  assumes "list_all no_message rs"
  shows "fst (while_true receive_round rs n) = Pending \<and>
         fst (snd (while_true receive_round rs n)) = n \<and>
         acknowledged (snd (snd (while_true receive_round rs n))) = [] \<and>
         polls (snd (snd (while_true receive_round rs n))) = length rs"
proof -
  obtain t where "while_true receive_round rs n = (Pending, n, t)"
    and "acknowledged t = []" and "polls t = length rs"
    using no_message_loop [OF assms] by blast
  then show ?thesis by simp
qed

lemma no_message_timeout_at: "no_message (timeout_at secs)"
  by (simp add: no_message_def timeout_at_def)

theorem timeouts_change_nothing_witness:
  "list_all no_message (map timeout_at [0, 6, 12, 18, 24]) \<and>
   fst (while_true receive_round (map timeout_at [0, 6, 12, 18, 24]) 0) = Pending \<and>
   fst (snd (while_true receive_round (map timeout_at [0, 6, 12, 18, 24]) 0)) = 0 \<and>
   acknowledged (snd (snd (while_true receive_round (map timeout_at [0, 6, 12, 18, 24]) 0))) = [] \<and>
   polls (snd (snd (while_true receive_round (map timeout_at [0, 6, 12, 18, 24]) 0))) = 5"
proof -
  have h: "list_all no_message (map timeout_at [0, 6, 12, 18, 24])"
    by (simp add: no_message_timeout_at)
  show ?thesis using h timeouts_change_nothing [OF h, of 0] by simp
qed

subsection \<open>The liveness marker\<close>

lemma timeout_text_unmatched: "\<not> contains (py ''Pulsar error: TimeOut'') (py ''Timeout'')"
  by (simp add: py_def)

lemma round_timeout_at:
  "receive_round (timeout_at secs) n =
     (Continue, n,
      [Receive 5000 (Inl (Error (py ''Pulsar error: TimeOut''))),
       println (py ''Error receiving message: Pulsar error: TimeOut''),
       Sleep 1])"
proof -
  have "receive_round (timeout_at secs) n =
      receive_except (timeout_at secs) (Error (py ''Pulsar error: TimeOut'')) n
        [Receive 5000 (Inl (Error (py ''Pulsar error: TimeOut'')))]"
    by (simp add: receive_round_def timeout_at_def)
  also have "\<dots> =
     (Continue, n,
      [Receive 5000 (Inl (Error (py ''Pulsar error: TimeOut''))),
       println (py ''Error receiving message: Pulsar error: TimeOut''),
       Sleep 1])"
    using receive_except_error [of "Error (py ''Pulsar error: TimeOut'')" "timeout_at secs" n
        "[Receive 5000 (Inl (Error (py ''Pulsar error: TimeOut'')))]"]
      timeout_text_unmatched
    by (simp add: timeout_at_def py_def)
  finally show ?thesis .
qed

lemma timeouts_loop:
  "while_true receive_round (map timeout_at secs) n =
     (Pending, n,
      concat (map (\<lambda>s. [Receive 5000 (Inl (Error (py ''Pulsar error: TimeOut''))),
                         println (py ''Error receiving message: Pulsar error: TimeOut''),
                         Sleep 1]) secs))"
  by (induction secs) (simp_all add: round_timeout_at)

lemma markers_Nil: "markers [] = 0"
  by (simp add: markers_def)

lemma markers_reports:
  "markers (concat (map (\<lambda>s. [Receive 5000 (Inl (Error (py ''Pulsar error: TimeOut''))),
                               println (py ''Error receiving message: Pulsar error: TimeOut''),
                               Sleep 1]) secs)) = 0"
  by (induction secs) (simp_all add: markers_def println_def py_def nl_def)

text \<open>
  C4. The source's comment calls a timeout expected and asks for a dot every 30
  seconds. The exception of the broker client for a timeout reads
  \<open>Pulsar error: TimeOut\<close>, in which the source's test for \<open>Timeout\<close> finds nothing. So
  over any number of consecutive timeouts, whatever the clock shows and whether or not
  a message was received before, each turn reports an error and pauses for one second,
  and the marker is never written.
\<close>

theorem timeouts_write_no_marker:
  "\<not> contains (str_exn (Error (py ''Pulsar error: TimeOut''))) (py ''Timeout'') \<and>
   snd (snd (while_true receive_round (map timeout_at secs) n)) =
     concat (map (\<lambda>s. [Receive 5000 (Inl (Error (py ''Pulsar error: TimeOut''))),
                        println (py ''Error receiving message: Pulsar error: TimeOut''),
                        Sleep 1]) secs) \<and>
   markers (snd (snd (while_true receive_round (map timeout_at secs) n))) = 0"
proof -
  have unmatched:
    "\<not> contains (str_exn (Error (py ''Pulsar error: TimeOut''))) (py ''Timeout'')"
    using timeout_text_unmatched by simp
  have trace: "snd (snd (while_true receive_round (map timeout_at secs) n)) =
     concat (map (\<lambda>s. [Receive 5000 (Inl (Error (py ''Pulsar error: TimeOut''))),
                        println (py ''Error receiving message: Pulsar error: TimeOut''),
                        Sleep 1]) secs)"
    unfolding timeouts_loop snd_conv by (rule refl)
  have none: "markers (snd (snd (while_true receive_round (map timeout_at secs) n))) = 0"
    unfolding trace by (rule markers_reports)
  show ?thesis using unmatched trace none by (intro conjI)
qed

subsection \<open>Turns with a message\<close>

lemma contains_set: "contains s old \<Longrightarrow> set old \<subseteq> set s"
  by (auto simp: contains_iff)

lemma hex_digit_not_T: "hex_digit d \<noteq> 0x54"
  by (simp add: hex_digit_def)

lemma str_nat_not_T: "0x54 \<notin> set (str_nat n)"
  using str_nat_digits [of n] by (auto simp: list_all_iff isdigit_def)

lemma decode_error_not_T: "0x54 \<notin> set (decode_error f)"
proof -
  obtain start ending b r where f: "f = (start, ending, b, r)" by (cases f) auto
  have reason: "0x54 \<notin> set (reason_text r)" by (cases r) (simp_all add: py_def)
  show ?thesis
    by (simp add: f codec_cannot_def hex2_def hex_digit_not_T str_nat_not_T reason py_def)
qed

lemma decode_fails_generic:
  assumes "decode_utf8 bs = Inl e"
  shows "is_Exception e \<and> \<not> contains (str_exn e) (py ''Timeout'')"
proof -
  obtain f where e: "e = UnicodeError (decode_error f)"
    using assms by (auto simp: decode_utf8_def split: sum.splits)
  have "\<not> contains (decode_error f) (py ''Timeout'')"
  proof
    assume "contains (decode_error f) (py ''Timeout'')"
    then have "set (py ''Timeout'') \<subseteq> set (decode_error f)" by (rule contains_set)
    then have "0x54 \<in> set (decode_error f)" by (auto simp: py_def)
    then show False using decode_error_not_T by simp
  qed
  then show ?thesis by (simp add: e)
qed

lemma message_lines_length: "length (message_lines c msg message_data now) = 5"
  by (simp add: message_lines_def)

lemma print_each_all:
  "all_shown r \<Longrightarrow> length ls = 5 \<Longrightarrow> print_each ls (shown r) = (map println ls, None)"
  by (auto simp: all_shown_def print_each_def split: option.splits)

lemma print_each_raises:
  "shown r = Some (k, e) \<Longrightarrow> k < length ls \<Longrightarrow>
   print_each ls (shown r) = (map println (take k ls) @ [StdoutRaised (ls ! k @ nl) e], Some e)"
  by (simp add: print_each_def)

lemma receive_round_undecodable:
  assumes "received r = Inr msg" and "decode_utf8 (data msg) = Inl e"
  shows "receive_round r n =
     (case slept r of Inl e' \<Rightarrow> Propagate e' | Inr u \<Rightarrow> Continue, n + 1,
      [Receive 5000 (Inr msg), println (py ''Error receiving message: '' @ str_exn e), Sleep 1])"
proof -
  have e: "is_Exception e" "\<not> contains (str_exn e) (py ''Timeout'')"
    using decode_fails_generic [OF assms(2)] by simp_all
  have "receive_round r n = receive_except r e (n + 1) [Receive 5000 (Inr msg)]"
    using assms by (simp add: receive_round_def)
  then show ?thesis by (simp add: receive_except_error [OF e])
qed

lemma receive_round_unshown:
  assumes "received r = Inr msg" and "decode_utf8 (data msg) = Inr message_data"
    and "shown r = Some (k, e)" and "k < 5"
  shows "receive_round r n =
     receive_except r e (n + 1)
       (Receive 5000 (Inr msg) #
        map println (take k (message_lines (n + 1) msg message_data (seen r))) @
        [StdoutRaised (message_lines (n + 1) msg message_data (seen r) ! k @ nl) e])"
proof -
  have "print_each (message_lines (n + 1) msg message_data (seen r)) (shown r) =
      (map println (take k (message_lines (n + 1) msg message_data (seen r))) @
       [StdoutRaised (message_lines (n + 1) msg message_data (seen r) ! k @ nl) e], Some e)"
    using assms(3,4) by (intro print_each_raises) (simp_all add: message_lines_length)
  then show ?thesis using assms(1,2) by (simp add: receive_round_def)
qed

lemma receive_round_shown:
  assumes "received r = Inr msg" and "decode_utf8 (data msg) = Inr message_data"
    and "all_shown r"
  shows "receive_round r n =
     (case acked r of
        Inl e \<Rightarrow>
          receive_except r e (n + 1)
            (Receive 5000 (Inr msg) #
             map println (message_lines (n + 1) msg message_data (seen r)) @
             [Acknowledge msg (acked r)])
      | Inr u \<Rightarrow>
          (Continue, n + 1,
           Receive 5000 (Inr msg) #
           map println (message_lines (n + 1) msg message_data (seen r)) @
           [Acknowledge msg (acked r)]))"
proof -
  have "print_each (message_lines (n + 1) msg message_data (seen r)) (shown r) =
      (map println (message_lines (n + 1) msg message_data (seen r)), None)"
    using assms(3) by (intro print_each_all) (simp_all add: message_lines_length)
  then show ?thesis using assms(1,2) by (simp add: receive_round_def Let_def split: sum.split)
qed

lemma shown_cases:
  "all_shown r \<or> (\<exists>k e. shown r = Some (k, e) \<and> k < 5)"
  by (cases "shown r") (auto simp: all_shown_def)

lemma receive_round_count:
  "fst (snd (receive_round r n)) = n + arrivals (snd (snd (receive_round r n)))"
proof (cases "received r")
  case (Inl e)
  then show ?thesis by (simp add: receive_round_def receive_except_calls)
next
  case (Inr msg)
  show ?thesis
  proof (cases "decode_utf8 (data msg)")
    case (Inl e)
    show ?thesis by (simp add: receive_round_undecodable [OF Inr Inl] println_def)
  next
    case dec: (Inr message_data)
    from shown_cases [of r] show ?thesis
    proof
      assume "all_shown r"
      from receive_round_shown [OF Inr dec this, of n] show ?thesis
        by (cases "acked r")
          (simp_all add: receive_except_calls arrivals_append silent_calls silent_println)
    next
      assume "\<exists>k e. shown r = Some (k, e) \<and> k < 5"
      then obtain k e where "shown r = Some (k, e)" "k < 5" by blast
      from receive_round_unshown [OF Inr dec this, of n] show ?thesis
        by (simp add: receive_except_calls arrivals_append silent_calls silent_println)
    qed
  qed
qed

lemma receive_round_turn: "acks_in_turn None (snd (snd (receive_round r n)))"
proof (cases "received r")
  case (Inl e)
  then show ?thesis by (simp add: receive_round_def receive_except_calls)
next
  case (Inr msg)
  show ?thesis
  proof (cases "decode_utf8 (data msg)")
    case (Inl e)
    show ?thesis
      by (simp add: receive_round_undecodable [OF Inr Inl] println_def decodable_def Inl)
  next
    case dec: (Inr message_data)
    from shown_cases [of r] show ?thesis
    proof
      assume "all_shown r"
      from receive_round_shown [OF Inr dec this, of n] show ?thesis
        by (cases "acked r")
          (simp_all add: receive_except_calls acks_in_turn_silent_prefix silent_println
            decodable_def dec)
    next
      assume "\<exists>k e. shown r = Some (k, e) \<and> k < 5"
      then obtain k e where "shown r = Some (k, e)" "k < 5" by blast
      from receive_round_unshown [OF Inr dec this, of n] show ?thesis
        by (simp add: receive_except_calls acks_in_turn_silent_prefix silent_println
            decodable_def dec)
    qed
  qed
qed

lemma consume_loop_count:
  "fst (snd (while_true receive_round rs n)) =
     n + arrivals (snd (snd (while_true receive_round rs n)))"
proof (induction rs arbitrary: n)
  case Nil
  show ?case by simp
next
  case (Cons r rs)
  obtain c n' t where round: "receive_round r n = (c, n', t)"
    by (cases "receive_round r n") auto
  have n': "n' = n + arrivals t" using receive_round_count [of r n] round by simp
  show ?case
  proof (cases c)
    case Continue
    obtain res n'' t' where rest: "while_true receive_round rs n' = (res, n'', t')"
      by (cases "while_true receive_round rs n'") auto
    have "n'' = n' + arrivals t'" using Cons.IH [of n'] rest by simp
    then show ?thesis using round Continue rest n' by (simp add: arrivals_append)
  next
    case Break
    then show ?thesis using round n' by simp
  next
    case (Propagate e)
    then show ?thesis using round n' by simp
  qed
qed

lemma consume_loop_turn: "acks_in_turn None (snd (snd (while_true receive_round rs n)))"
proof (induction rs arbitrary: n)
  case Nil
  show ?case by simp
next
  case (Cons r rs)
  obtain c n' t where round: "receive_round r n = (c, n', t)"
    by (cases "receive_round r n") auto
  have t: "acks_in_turn None t" using receive_round_turn [of r n] round by simp
  show ?case
  proof (cases c)
    case Continue
    obtain res n'' t' where rest: "while_true receive_round rs n' = (res, n'', t')"
      by (cases "while_true receive_round rs n'") auto
    have "acks_in_turn None t'" using Cons.IH [of n'] rest by simp
    then show ?thesis using round Continue rest t by (simp add: acks_in_turn_append)
  next
    case Break
    then show ?thesis using round t by simp
  next
    case (Propagate e)
    then show ?thesis using round t by simp
  qed
qed

lemma receive_round_counted:
  assumes "received r = Inr msg"
  shows "fst (snd (receive_round r n)) = n + 1"
proof (cases "decode_utf8 (data msg)")
  case (Inl e)
  show ?thesis by (simp add: receive_round_undecodable [OF assms Inl])
next
  case dec: (Inr message_data)
  from shown_cases [of r] show ?thesis
  proof
    assume "all_shown r"
    from receive_round_shown [OF assms dec this, of n] show ?thesis
      by (cases "acked r") (simp_all add: receive_except_calls)
  next
    assume "\<exists>k e. shown r = Some (k, e) \<and> k < 5"
    then obtain k e where "shown r = Some (k, e)" "k < 5" by blast
    from receive_round_unshown [OF assms dec this, of n] show ?thesis
      by (simp add: receive_except_calls)
  qed
qed

lemma receive_round_acknowledged:
  assumes "received r = Inr msg" and "decode_utf8 (data msg) = Inr message_data"
    and "all_shown r"
  shows "acknowledged (snd (snd (receive_round r n))) = [msg]"
    and "acked r = Inr () \<Longrightarrow>
      receive_round r n =
        (Continue, n + 1,
         Receive 5000 (Inr msg) #
         map println (message_lines (n + 1) msg message_data (seen r)) @
         [Acknowledge msg (Inr ())])"
proof -
  show "acknowledged (snd (snd (receive_round r n))) = [msg]"
    using receive_round_shown [OF assms, of n]
    by (cases "acked r")
      (simp_all add: receive_except_calls acknowledged_append silent_calls silent_println)
  show "acked r = Inr () \<Longrightarrow>
      receive_round r n =
        (Continue, n + 1,
         Receive 5000 (Inr msg) #
         map println (message_lines (n + 1) msg message_data (seen r)) @
         [Acknowledge msg (Inr ())])"
    using receive_round_shown [OF assms, of n] by simp
qed

lemma receive_round_print_raised:
  assumes "received r = Inr msg" and "decode_utf8 (data msg) = Inr message_data"
    and "shown r = Some (k, e)" and "k < 5"
  shows "acknowledged (snd (snd (receive_round r n))) = []"
    and "is_Exception e \<Longrightarrow> \<not> contains (str_exn e) (py ''Timeout'') \<Longrightarrow>
      receive_round r n =
        (case slept r of Inl e' \<Rightarrow> Propagate e' | Inr u \<Rightarrow> Continue, n + 1,
         Receive 5000 (Inr msg) #
         map println (take k (message_lines (n + 1) msg message_data (seen r))) @
         [StdoutRaised (message_lines (n + 1) msg message_data (seen r) ! k @ nl) e,
          println (py ''Error receiving message: '' @ str_exn e), Sleep 1])"
proof -
  show "acknowledged (snd (snd (receive_round r n))) = []"
    using receive_round_unshown [OF assms, of n]
    by (simp add: receive_except_calls acknowledged_append silent_calls silent_println)
  show "is_Exception e \<Longrightarrow> \<not> contains (str_exn e) (py ''Timeout'') \<Longrightarrow>
      receive_round r n =
        (case slept r of Inl e' \<Rightarrow> Propagate e' | Inr u \<Rightarrow> Continue, n + 1,
         Receive 5000 (Inr msg) #
         map println (take k (message_lines (n + 1) msg message_data (seen r))) @
         [StdoutRaised (message_lines (n + 1) msg message_data (seen r) ! k @ nl) e,
          println (py ''Error receiving message: '' @ str_exn e), Sleep 1])"
    using receive_round_unshown [OF assms, of n] by (simp add: receive_except_error)
qed

lemma receive_except_extends:
  "\<exists>t'. snd (snd (receive_except r e n (x # t))) = x # t'"
  using receive_except_shape [of r e n "x # t"] by auto

lemma receive_round_polls_first:
  "\<exists>t. snd (snd (receive_round r n)) = Receive 5000 (received r) # t"
proof (cases "received r")
  case (Inl e)
  then show ?thesis
    using receive_except_extends [of r e n "Receive 5000 (Inl e)" "[]"]
    by (simp add: receive_round_def)
next
  case (Inr msg)
  show ?thesis
  proof (cases "decode_utf8 (data msg)")
    case (Inl e)
    show ?thesis by (simp add: receive_round_undecodable [OF Inr Inl] Inr)
  next
    case dec: (Inr message_data)
    from shown_cases [of r] show ?thesis
    proof
      assume all: "all_shown r"
      show ?thesis
      proof (cases "acked r")
        case (Inl e)
        then show ?thesis
          using receive_round_shown [OF Inr dec all, of n]
            receive_except_extends [of r e "n + 1" "Receive 5000 (Inr msg)"
              "map println (message_lines (n + 1) msg message_data (seen r)) @
               [Acknowledge msg (acked r)]"]
          by (simp add: Inr)
      next
        case ok: (Inr u)
        then show ?thesis using receive_round_shown [OF Inr dec all, of n] by (simp add: Inr)
      qed
    next
      assume "\<exists>k e. shown r = Some (k, e) \<and> k < 5"
      then obtain k e where raised: "shown r = Some (k, e)" "k < 5" by blast
      show ?thesis
        using receive_round_unshown [OF Inr dec raised, of n]
          receive_except_extends [of r e "n + 1" "Receive 5000 (Inr msg)"
            "map println (take k (message_lines (n + 1) msg message_data (seen r))) @
             [StdoutRaised (message_lines (n + 1) msg message_data (seen r) ! k @ nl) e]"]
        by (simp add: Inr)
    qed
  qed
qed

lemma next_turn_polls:
  assumes "fst (receive_round r n) = Continue"
  shows "\<exists>t. snd (snd (while_true receive_round (r # r' # rs) n)) =
           snd (snd (receive_round r n)) @ Receive 5000 (received r') # t"
proof -
  obtain n' t where round: "receive_round r n = (Continue, n', t)"
    using assms by (cases "receive_round r n") auto
  obtain c' n'' t' where next_round: "receive_round r' n' = (c', n'', t')"
    by (cases "receive_round r' n'") auto
  obtain t'' where t': "t' = Receive 5000 (received r') # t''"
    using receive_round_polls_first [of r' n'] next_round by auto
  obtain res m t3 where rest: "while_true receive_round rs n'' = (res, m, t3)"
    by (cases "while_true receive_round rs n''") auto
  show ?thesis
    by (cases c') (simp_all add: round next_round t' rest)
qed

text \<open>
  C2, as the code has it. A receive that returns a message raises the count by exactly
  one. When the payload is valid UTF-8 and the five lines for the message are all
  written, the message is acknowledged once, after those lines and in the same turn,
  and nothing else happens in the turn if the acknowledgement returns. When decoding
  the payload raises, the turn is the poll, the error report and a pause of one second,
  the message is not acknowledged, and the loop goes on unless the pause is
  interrupted. When one of the five lines cannot be written, the lines after it and
  the acknowledgement are not reached; if the exception is an \<open>Exception\<close> whose text
  does not contain \<open>Timeout\<close>, the error report and the pause of one second follow.
  A turn that ends with \<open>continue\<close> is followed by the poll of the next turn. Over any
  turns the count is the starting count plus the number of receives that
  returned, every acknowledgement is for the message the last poll returned, and no
  poll is made while one is owed.
\<close>

theorem receive_counts_and_acknowledges:
  "(received r = Inr msg \<longrightarrow> fst (snd (receive_round r n)) = n + 1) \<and>
   (received r = Inr msg \<and> decode_utf8 (data msg) = Inr message_data \<and> all_shown r \<longrightarrow>
      acknowledged (snd (snd (receive_round r n))) = [msg] \<and>
      (acked r = Inr () \<longrightarrow>
         receive_round r n =
           (Continue, n + 1,
            Receive 5000 (Inr msg) #
            map println (message_lines (n + 1) msg message_data (seen r)) @
            [Acknowledge msg (Inr ())]))) \<and>
   (received r = Inr msg \<and> decode_utf8 (data msg) = Inl e \<longrightarrow>
      receive_round r n =
        (case slept r of Inl e' \<Rightarrow> Propagate e' | Inr u \<Rightarrow> Continue, n + 1,
         [Receive 5000 (Inr msg), println (py ''Error receiving message: '' @ str_exn e),
          Sleep 1])) \<and>
   (received r = Inr msg \<and> decode_utf8 (data msg) = Inr message_data \<and>
    shown r = Some (k, e) \<and> k < 5 \<longrightarrow>
      acknowledged (snd (snd (receive_round r n))) = [] \<and>
      (is_Exception e \<and> \<not> contains (str_exn e) (py ''Timeout'') \<longrightarrow>
         receive_round r n =
           (case slept r of Inl e' \<Rightarrow> Propagate e' | Inr u \<Rightarrow> Continue, n + 1,
            Receive 5000 (Inr msg) #
            map println (take k (message_lines (n + 1) msg message_data (seen r))) @
            [StdoutRaised (message_lines (n + 1) msg message_data (seen r) ! k @ nl) e,
             println (py ''Error receiving message: '' @ str_exn e), Sleep 1]))) \<and>
   (fst (receive_round r n) = Continue \<longrightarrow>
      (\<exists>t. snd (snd (while_true receive_round (r # r' # rs') n)) =
             snd (snd (receive_round r n)) @ Receive 5000 (received r') # t)) \<and>
   fst (snd (while_true receive_round rs n)) =
     n + arrivals (snd (snd (while_true receive_round rs n))) \<and>
   acks_in_turn None (snd (snd (while_true receive_round rs n)))"
proof -
  have a: "received r = Inr msg \<longrightarrow> fst (snd (receive_round r n)) = n + 1"
    using receive_round_counted [of r msg n] by blast
  have b: "received r = Inr msg \<and> decode_utf8 (data msg) = Inr message_data \<and> all_shown r \<longrightarrow>
      acknowledged (snd (snd (receive_round r n))) = [msg] \<and>
      (acked r = Inr () \<longrightarrow>
         receive_round r n =
           (Continue, n + 1,
            Receive 5000 (Inr msg) #
            map println (message_lines (n + 1) msg message_data (seen r)) @
            [Acknowledge msg (Inr ())]))"
    using receive_round_acknowledged [of r msg message_data n] by blast
  have c: "received r = Inr msg \<and> decode_utf8 (data msg) = Inl e \<longrightarrow>
      receive_round r n =
        (case slept r of Inl e' \<Rightarrow> Propagate e' | Inr u \<Rightarrow> Continue, n + 1,
         [Receive 5000 (Inr msg), println (py ''Error receiving message: '' @ str_exn e),
          Sleep 1])"
    using receive_round_undecodable [of r msg e n] by blast
  have d: "received r = Inr msg \<and> decode_utf8 (data msg) = Inr message_data \<and>
    shown r = Some (k, e) \<and> k < 5 \<longrightarrow>
      acknowledged (snd (snd (receive_round r n))) = [] \<and>
      (is_Exception e \<and> \<not> contains (str_exn e) (py ''Timeout'') \<longrightarrow>
         receive_round r n =
           (case slept r of Inl e' \<Rightarrow> Propagate e' | Inr u \<Rightarrow> Continue, n + 1,
            Receive 5000 (Inr msg) #
            map println (take k (message_lines (n + 1) msg message_data (seen r))) @
            [StdoutRaised (message_lines (n + 1) msg message_data (seen r) ! k @ nl) e,
             println (py ''Error receiving message: '' @ str_exn e), Sleep 1]))"
    using receive_round_print_raised [of r msg message_data k e n] by blast
  have f: "fst (receive_round r n) = Continue \<longrightarrow>
      (\<exists>t. snd (snd (while_true receive_round (r # r' # rs') n)) =
             snd (snd (receive_round r n)) @ Receive 5000 (received r') # t)"
    using next_turn_polls [of r n r' rs'] by blast
  show ?thesis
    using a b c d f consume_loop_count [of rs n] consume_loop_turn [of rs n] by blast
qed

subsection \<open>Sample turns\<close>

lemma arrives_fields:
  "received (arrives payload) = Inr \<lparr>data = payload, message_id = py ''(12,0,-1,0)''\<rparr>"
  "seen (arrives payload) = new_year"
  "acked (arrives payload) = Inr ()"
  "slept (arrives payload) = Inr ()"
  "all_shown (arrives payload)"
  by (simp_all add: arrives_def all_shown_def)

lemma arrives_unshown_fields:
  "received (arrives_unshown payload) = Inr \<lparr>data = payload, message_id = py ''(12,0,-1,0)''\<rparr>"
  "seen (arrives_unshown payload) = new_year"
  "shown (arrives_unshown payload) = Some (2, UnicodeError cannot_show)"
  "slept (arrives_unshown payload) = Inr ()"
  by (simp_all add: arrives_unshown_def)

lemma decode_hello: "decode_utf8 (ascii ''hello'') = Inr (py ''hello'')"
  by (simp add: decode_utf8_def ascii_def py_def prepend_def)

lemma decode_garbled:
  "decode_utf8 [0xFF] =
     Inl (UnicodeError (codec_cannot ''decode byte 0x'' @ py ''ff in position 0: invalid start byte''))"
  by (simp add: decode_utf8_def hex2_def hex_digit_def str_nat_one py_def)

lemma decode_accent: "decode_utf8 [0xC3, 0xA9] = Inr [0xE9]"
  by (simp add: decode_utf8_def second_ok_def prepend_def)

lemma garbled_unmatched:
  "\<not> contains (codec_cannot ''decode byte 0x'' @ py ''ff in position 0: invalid start byte'')
       (py ''Timeout'')"
  by (simp add: codec_cannot_def py_def)

lemma cannot_show_unmatched: "\<not> contains cannot_show (py ''Timeout'')"
  by (simp add: cannot_show_def py_def)

lemma round_arrives_hello:
  "receive_round (arrives (ascii ''hello'')) n =
     (Continue, n + 1,
      [Receive 5000 (Inr \<lparr>data = ascii ''hello'', message_id = py ''(12,0,-1,0)''\<rparr>),
       println (py ''Message '' @ str_nat (n + 1) @ py '' received:''),
       println (py ''  ID: '' @ py ''(12,0,-1,0)''),
       println (py ''  Data: '' @ py ''hello''),
       println (py ''  Received at: '' @ py ''2024-01-01 10:00:00''),
       println dashes,
       Acknowledge \<lparr>data = ascii ''hello'', message_id = py ''(12,0,-1,0)''\<rparr> (Inr ())])"
  by (simp add: receive_round_def arrives_def decode_hello print_each_def message_lines_def
      new_year_stamp Let_def)

lemma round_arrives_garbled:
  "receive_round (arrives [0xFF]) n =
     (Continue, n + 1,
      [Receive 5000 (Inr \<lparr>data = [0xFF], message_id = py ''(12,0,-1,0)''\<rparr>),
       println (py ''Error receiving message: '' @ codec_cannot ''decode byte 0x'' @
                py ''ff in position 0: invalid start byte''),
       Sleep 1])"
  by (simp add: receive_round_def arrives_def decode_garbled receive_except_def
      garbled_unmatched Let_def)

lemma round_arrives_unshown:
  "receive_round (arrives_unshown [0xC3, 0xA9]) n =
     (Continue, n + 1,
      [Receive 5000 (Inr \<lparr>data = [0xC3, 0xA9], message_id = py ''(12,0,-1,0)''\<rparr>),
       println (py ''Message '' @ str_nat (n + 1) @ py '' received:''),
       println (py ''  ID: '' @ py ''(12,0,-1,0)''),
       StdoutRaised (py ''  Data: '' @ [0xE9] @ nl) (UnicodeError cannot_show),
       println (py ''Error receiving message: '' @ cannot_show),
       Sleep 1])"
  by (simp add: receive_round_def arrives_unshown_def decode_accent print_each_def
      message_lines_def receive_except_def cannot_show_unmatched Let_def)

text \<open>
  A message with the payload \<open>hello\<close>; a message whose payload is the byte \<open>FF\<close>; a
  message whose payload is an \<open>e\<close> with an acute accent, on a standard output that
  cannot show it; and the four turns in a row, with a timeout after the first.
\<close>

theorem receive_counts_and_acknowledges_witness:
  "received (arrives (ascii ''hello'')) =
     Inr \<lparr>data = ascii ''hello'', message_id = py ''(12,0,-1,0)''\<rparr> \<and>
   decode_utf8 (ascii ''hello'') = Inr (py ''hello'') \<and>
   all_shown (arrives (ascii ''hello'')) \<and>
   acked (arrives (ascii ''hello'')) = Inr () \<and>
   fst (snd (receive_round (arrives (ascii ''hello'')) 0)) = 1 \<and>
   acknowledged (snd (snd (receive_round (arrives (ascii ''hello'')) 0))) =
     [\<lparr>data = ascii ''hello'', message_id = py ''(12,0,-1,0)''\<rparr>] \<and>
   receive_round (arrives (ascii ''hello'')) 0 =
     (Continue, 1,
      [Receive 5000 (Inr \<lparr>data = ascii ''hello'', message_id = py ''(12,0,-1,0)''\<rparr>),
       println (py ''Message 1 received:''),
       println (py ''  ID: (12,0,-1,0)''),
       println (py ''  Data: hello''),
       println (py ''  Received at: 2024-01-01 10:00:00''),
       println dashes,
       Acknowledge \<lparr>data = ascii ''hello'', message_id = py ''(12,0,-1,0)''\<rparr> (Inr ())]) \<and>
   received (arrives [0xFF]) = Inr \<lparr>data = [0xFF], message_id = py ''(12,0,-1,0)''\<rparr> \<and>
   decode_utf8 [0xFF] =
     Inl (UnicodeError (codec_cannot ''decode byte 0x'' @
                        py ''ff in position 0: invalid start byte'')) \<and>
   receive_round (arrives [0xFF]) 0 =
     (Continue, 1,
      [Receive 5000 (Inr \<lparr>data = [0xFF], message_id = py ''(12,0,-1,0)''\<rparr>),
       println (py ''Error receiving message: '' @ codec_cannot ''decode byte 0x'' @
                py ''ff in position 0: invalid start byte''),
       Sleep 1]) \<and>
   received (arrives_unshown [0xC3, 0xA9]) =
     Inr \<lparr>data = [0xC3, 0xA9], message_id = py ''(12,0,-1,0)''\<rparr> \<and>
   decode_utf8 [0xC3, 0xA9] = Inr [0xE9] \<and>
   shown (arrives_unshown [0xC3, 0xA9]) = Some (2, UnicodeError cannot_show) \<and>
   is_Exception (UnicodeError cannot_show) \<and>
   \<not> contains (str_exn (UnicodeError cannot_show)) (py ''Timeout'') \<and>
   acknowledged (snd (snd (receive_round (arrives_unshown [0xC3, 0xA9]) 0))) = [] \<and>
   receive_round (arrives_unshown [0xC3, 0xA9]) 0 =
     (Continue, 1,
      [Receive 5000 (Inr \<lparr>data = [0xC3, 0xA9], message_id = py ''(12,0,-1,0)''\<rparr>),
       println (py ''Message 1 received:''),
       println (py ''  ID: (12,0,-1,0)''),
       StdoutRaised (py ''  Data: '' @ [0xE9, 10]) (UnicodeError cannot_show),
       println (py ''Error receiving message: '' @ cannot_show),
       Sleep 1]) \<and>
   fst (receive_round (arrives [0xFF]) 0) = Continue \<and>
   (\<exists>t. snd (snd (while_true receive_round [arrives [0xFF], timeout_at 6] 0)) =
          snd (snd (receive_round (arrives [0xFF]) 0)) @
          Receive 5000 (Inl (Error (py ''Pulsar error: TimeOut''))) # t) \<and>
   fst (snd (while_true receive_round
               [arrives (ascii ''hello''), timeout_at 6, arrives [0xFF],
                arrives_unshown [0xC3, 0xA9]] 0)) = 3 \<and>
   arrivals (snd (snd (while_true receive_round
               [arrives (ascii ''hello''), timeout_at 6, arrives [0xFF],
                arrives_unshown [0xC3, 0xA9]] 0))) = 3 \<and>
   acks_in_turn None (snd (snd (while_true receive_round
               [arrives (ascii ''hello''), timeout_at 6, arrives [0xFF],
                arrives_unshown [0xC3, 0xA9]] 0)))"
proof -
  let ?rs = "[arrives (ascii ''hello''), timeout_at 6, arrives [0xFF],
              arrives_unshown [0xC3, 0xA9]]"
  note shown_ok =
    receive_counts_and_acknowledges
      [where r = "arrives (ascii ''hello'')"
         and msg = "\<lparr>data = ascii ''hello'', message_id = py ''(12,0,-1,0)''\<rparr>"
         and n = 0 and message_data = "py ''hello''"
         and e = "UnicodeError cannot_show" and k = 2 and rs = ?rs
         and r' = "timeout_at 6" and rs' = "[]"]
  note undecodable =
    receive_counts_and_acknowledges
      [where r = "arrives [0xFF]"
         and msg = "\<lparr>data = [0xFF], message_id = py ''(12,0,-1,0)''\<rparr>"
         and n = 0 and message_data = "[]"
         and e = "UnicodeError (codec_cannot ''decode byte 0x'' @
                                py ''ff in position 0: invalid start byte'')"
         and k = 0 and rs = ?rs
         and r' = "timeout_at 6" and rs' = "[]"]
  note unshown =
    receive_counts_and_acknowledges
      [where r = "arrives_unshown [0xC3, 0xA9]"
         and msg = "\<lparr>data = [0xC3, 0xA9], message_id = py ''(12,0,-1,0)''\<rparr>"
         and n = 0 and message_data = "[0xE9]"
         and e = "UnicodeError cannot_show" and k = 2 and rs = ?rs
         and r' = "timeout_at 6" and rs' = "[]"]
  have lines:
    "message_lines (Suc 0) \<lparr>data = ascii ''hello'', message_id = py ''(12,0,-1,0)''\<rparr>
       (py ''hello'') new_year =
     [py ''Message 1 received:'', py ''  ID: (12,0,-1,0)'', py ''  Data: hello'',
      py ''  Received at: 2024-01-01 10:00:00'', dashes]"
    "message_lines (Suc 0) \<lparr>data = [0xC3, 0xA9], message_id = py ''(12,0,-1,0)''\<rparr> [0xE9]
       new_year =
     [py ''Message 1 received:'', py ''  ID: (12,0,-1,0)'', py ''  Data: '' @ [0xE9],
      py ''  Received at: 2024-01-01 10:00:00'', dashes]"
    by (simp_all add: message_lines_def new_year_stamp str_nat_one py_def)
  have hello: "fst (snd (receive_round (arrives (ascii ''hello'')) 0)) = 1 \<and>
      acknowledged (snd (snd (receive_round (arrives (ascii ''hello'')) 0))) =
        [\<lparr>data = ascii ''hello'', message_id = py ''(12,0,-1,0)''\<rparr>] \<and>
      receive_round (arrives (ascii ''hello'')) 0 =
        (Continue, 1,
         [Receive 5000 (Inr \<lparr>data = ascii ''hello'', message_id = py ''(12,0,-1,0)''\<rparr>),
          println (py ''Message 1 received:''),
          println (py ''  ID: (12,0,-1,0)''),
          println (py ''  Data: hello''),
          println (py ''  Received at: 2024-01-01 10:00:00''),
          println dashes,
          Acknowledge \<lparr>data = ascii ''hello'', message_id = py ''(12,0,-1,0)''\<rparr> (Inr ())])"
    using shown_ok
    by (simp add: arrives_fields decode_hello lines println_def del: while_true.simps)
  have garbled: "receive_round (arrives [0xFF]) 0 =
     (Continue, 1,
      [Receive 5000 (Inr \<lparr>data = [0xFF], message_id = py ''(12,0,-1,0)''\<rparr>),
       println (py ''Error receiving message: '' @ codec_cannot ''decode byte 0x'' @
                py ''ff in position 0: invalid start byte''),
       Sleep 1])"
    using undecodable
    by (simp add: arrives_fields decode_garbled println_def del: while_true.simps)
  have accent: "acknowledged (snd (snd (receive_round (arrives_unshown [0xC3, 0xA9]) 0))) = [] \<and>
     receive_round (arrives_unshown [0xC3, 0xA9]) 0 =
     (Continue, 1,
      [Receive 5000 (Inr \<lparr>data = [0xC3, 0xA9], message_id = py ''(12,0,-1,0)''\<rparr>),
       println (py ''Message 1 received:''),
       println (py ''  ID: (12,0,-1,0)''),
       StdoutRaised (py ''  Data: '' @ [0xE9, 10]) (UnicodeError cannot_show),
       println (py ''Error receiving message: '' @ cannot_show),
       Sleep 1])"
    using unshown
    by (simp add: arrives_unshown_fields decode_accent lines cannot_show_unmatched nl_def
        println_def del: while_true.simps)
  have continues: "fst (receive_round (arrives [0xFF]) 0) = Continue"
    using garbled by simp
  have polled: "\<exists>t. snd (snd (while_true receive_round [arrives [0xFF], timeout_at 6] 0)) =
          snd (snd (receive_round (arrives [0xFF]) 0)) @
          Receive 5000 (Inl (Error (py ''Pulsar error: TimeOut''))) # t"
    using undecodable continues by (simp add: timeout_at_def del: while_true.simps)
  have trace: "arrivals (snd (snd (while_true receive_round ?rs 0))) = 3"
    by (simp add: round_arrives_hello round_timeout_at round_arrives_garbled
        round_arrives_unshown println_def)
  have loop: "fst (snd (while_true receive_round ?rs 0)) = 3 \<and>
      acks_in_turn None (snd (snd (while_true receive_round ?rs 0)))"
    using shown_ok trace by (simp del: while_true.simps)
  show ?thesis
    using hello garbled accent continues polled trace loop
    by (simp add: arrives_fields arrives_unshown_fields decode_hello decode_garbled
        decode_accent cannot_show_unmatched println_def del: while_true.simps)
qed

text \<open>
  A message whose payload is the byte \<open>FF\<close> is received and counted, the error is
  reported, the next poll is made, and no acknowledgement was made. The same happens
  to a message whose payload is valid UTF-8 when the line that shows the payload
  cannot be written.
\<close>

theorem unacknowledged_message_counterexample:
  "received (arrives [0xFF]) = Inr \<lparr>data = [0xFF], message_id = py ''(12,0,-1,0)''\<rparr> \<and>
   fst (snd (while_true receive_round [arrives [0xFF], timeout_at 6] 0)) = 1 \<and>
   polls (snd (snd (while_true receive_round [arrives [0xFF], timeout_at 6] 0))) = 2 \<and>
   acknowledged (snd (snd (while_true receive_round [arrives [0xFF], timeout_at 6] 0))) = [] \<and>
   snd (snd (while_true receive_round [arrives [0xFF], timeout_at 6] 0)) =
     [Receive 5000 (Inr \<lparr>data = [0xFF], message_id = py ''(12,0,-1,0)''\<rparr>),
      println (py ''Error receiving message: '' @ codec_cannot ''decode byte 0x'' @
               py ''ff in position 0: invalid start byte''),
      Sleep 1,
      Receive 5000 (Inl (Error (py ''Pulsar error: TimeOut''))),
      println (py ''Error receiving message: Pulsar error: TimeOut''),
      Sleep 1] \<and>
   received (arrives_unshown [0xC3, 0xA9]) =
     Inr \<lparr>data = [0xC3, 0xA9], message_id = py ''(12,0,-1,0)''\<rparr> \<and>
   decodable \<lparr>data = [0xC3, 0xA9], message_id = py ''(12,0,-1,0)''\<rparr> \<and>
   fst (snd (while_true receive_round [arrives_unshown [0xC3, 0xA9], timeout_at 6] 0)) = 1 \<and>
   polls (snd (snd (while_true receive_round [arrives_unshown [0xC3, 0xA9], timeout_at 6] 0))) = 2 \<and>
   acknowledged
     (snd (snd (while_true receive_round [arrives_unshown [0xC3, 0xA9], timeout_at 6] 0))) = [] \<and>
   snd (snd (while_true receive_round [arrives_unshown [0xC3, 0xA9], timeout_at 6] 0)) =
     [Receive 5000 (Inr \<lparr>data = [0xC3, 0xA9], message_id = py ''(12,0,-1,0)''\<rparr>),
      println (py ''Message 1 received:''),
      println (py ''  ID: (12,0,-1,0)''),
      StdoutRaised (py ''  Data: '' @ [0xE9, 10]) (UnicodeError cannot_show),
      println (py ''Error receiving message: '' @ cannot_show),
      Sleep 1,
      Receive 5000 (Inl (Error (py ''Pulsar error: TimeOut''))),
      println (py ''Error receiving message: Pulsar error: TimeOut''),
      Sleep 1]"
  by (simp add: round_arrives_garbled round_arrives_unshown round_timeout_at arrives_fields
      arrives_unshown_fields decodable_def decode_accent println_def str_nat_one nl_def py_def)

section \<open>Shutdown order\<close>

lemma releases_append: "releases (t @ t') = releases t @ releases t'"
  by (induction t rule: releases.induct) auto

lemma releases_println [simp]: "releases (println s # t) = releases t"
  by (simp add: println_def)

lemma loader_releases: "releases (fst (read_token_from_file sep fs token_file)) = []"
  by (simp add: read_token_from_file_def Let_def split: sum.split exn.split)

lemma connect_failed_releases: "releases (fst (connect_failed t e)) = releases t"
  by (simp add: connect_failed_def releases_append)

lemma create_producer_releases: "releases (fst (create_producer w)) = []"
proof -
  obtain t res where l: "read_token_from_file (os_sep w) (files w) (py ''tokens/client1-token.txt'') = (t, res)"
    by (cases "read_token_from_file (os_sep w) (files w) (py ''tokens/client1-token.txt'')") auto
  have t: "releases t = []"
    using loader_releases [of "os_sep w" "files w" "py ''tokens/client1-token.txt''"] l by simp
  show ?thesis
    by (simp add: create_producer_def Let_def l t releases_append connect_failed_releases
        split: result.split sum.split)
qed

lemma create_consumer_releases: "releases (fst (create_consumer w)) = []"
proof -
  obtain t res where l: "read_token_from_file (os_sep w) (files w) (py ''tokens/client2-token.txt'') = (t, res)"
    by (cases "read_token_from_file (os_sep w) (files w) (py ''tokens/client2-token.txt'')") auto
  have t: "releases t = []"
    using loader_releases [of "os_sep w" "files w" "py ''tokens/client2-token.txt''"] l by simp
  show ?thesis
    by (simp add: create_consumer_def Let_def l t releases_append connect_failed_releases
        split: result.split sum.split)
qed

lemma while_true_releases:
  assumes "\<And>r n. releases (snd (snd (body r n))) = []"
  shows "releases (snd (snd (while_true body rs n))) = []"
proof (induction rs arbitrary: n)
  case Nil
  show ?case by simp
next
  case (Cons r rs)
  obtain c n' t where round: "body r n = (c, n', t)"
    by (cases "body r n") auto
  have t: "releases t = []" using assms [of r n] round by simp
  show ?case
  proof (cases c)
    case Continue
    obtain res n'' t' where rest: "while_true body rs n' = (res, n'', t')"
      by (cases "while_true body rs n'") auto
    have "releases t' = []" using Cons.IH [of n'] rest by simp
    then show ?thesis using round Continue rest t by (simp add: releases_append)
  next
    case Break
    then show ?thesis using round t by simp
  next
    case (Propagate e)
    then show ?thesis using round t by simp
  qed
qed

lemma send_except_releases: "releases (snd (snd (send_except e n t))) = releases t"
  by (cases e) (simp_all add: send_except_def releases_append)

lemma send_round_releases: "releases (snd (snd (send_round ucd r n))) = []"
  by (simp add: send_round_def Let_def send_except_releases split: sum.split)

lemma receive_except_releases: "releases (snd (snd (receive_except r e n t))) = releases t"
  by (simp add: receive_except_def Let_def releases_append split: sum.split)

lemma print_each_releases: "releases (fst (print_each ls failing)) = []"
proof -
  have "releases (map println ls') = []" for ls'
    by (induction ls') simp_all
  then show ?thesis
    by (simp add: print_each_def releases_append split: option.split prod.split)
qed

lemma receive_round_releases: "releases (snd (snd (receive_round r n))) = []"
proof (cases "received r")
  case (Inl e)
  then show ?thesis by (simp add: receive_round_def receive_except_releases)
next
  case (Inr msg)
  show ?thesis
  proof (cases "decode_utf8 (data msg)")
    case (Inl e)
    then show ?thesis using Inr by (simp add: receive_round_def receive_except_releases)
  next
    case dec: (Inr message_data)
    obtain t1 x where
      pe: "print_each (message_lines (n + 1) msg message_data (seen r)) (shown r) = (t1, x)"
      by (cases "print_each (message_lines (n + 1) msg message_data (seen r)) (shown r)") auto
    have t1: "releases t1 = []"
      using print_each_releases [of "message_lines (n + 1) msg message_data (seen r)" "shown r"] pe
      by simp
    show ?thesis using Inr dec pe t1
      by (cases x; cases "acked r")
        (simp_all add: receive_round_def Let_def receive_except_releases releases_append)
  qed
qed

lemma send_messages_interactive_releases:
  "releases (fst (send_messages_interactive ucd rs)) = []"
proof -
  obtain res m t1 where loop: "while_true (send_round ucd) rs 0 = (res, m, t1)"
    by (cases "while_true (send_round ucd) rs 0") auto
  have "releases t1 = []"
    using while_true_releases [of "send_round ucd" rs 0, OF send_round_releases] loop by simp
  then show ?thesis
    by (simp add: send_messages_interactive_def Let_def loop releases_append split: result.split)
qed

lemma consume_messages_continuous_releases:
  "releases (fst (consume_messages_continuous rs)) = []"
proof -
  obtain res m t1 where loop: "while_true receive_round rs 0 = (res, m, t1)"
    by (cases "while_true receive_round rs 0") auto
  have "releases t1 = []"
    using while_true_releases [of receive_round rs 0, OF receive_round_releases] loop by simp
  then show ?thesis
    by (simp add: consume_messages_continuous_def Let_def loop releases_append split: result.split)
qed

lemma finally_close_releases:
  "releases (fst (finally_close closing closed w leaving)) =
     CloseChannel (close_channel w) #
     (case close_channel w of Inl e \<Rightarrow> [] | Inr u \<Rightarrow> [CloseClient (close_client w)])"
  by (simp add: finally_close_def Let_def releases_append split: sum.split)

lemma guarded_releases:
  assumes "snd run \<noteq> Pending"
  shows "releases (fst (guarded interrupted closing closed w run)) =
     releases (fst run) @
     CloseChannel (close_channel w) #
     (case close_channel w of Inl e \<Rightarrow> [] | Inr u \<Rightarrow> [CloseClient (close_client w)])"
proof -
  obtain t res where run: "run = (t, res)" by (cases run) auto
  have fin: "\<And>leaving. releases (fst (finally_close closing closed w leaving)) =
     CloseChannel (close_channel w) #
     (case close_channel w of Inl e \<Rightarrow> [] | Inr u \<Rightarrow> [CloseClient (close_client w)])"
    by (rule finally_close_releases)
  show ?thesis
  proof (cases res)
    case (Returns u)
    obtain t' res' where f: "finally_close closing closed w None = (t', res')"
      by (cases "finally_close closing closed w None") auto
    then show ?thesis using run Returns fin [of None]
      by (simp add: guarded_def releases_append)
  next
    case (Raises e)
    obtain t' res' where f: "finally_close closing closed w None = (t', res')"
      by (cases "finally_close closing closed w None") auto
    obtain t'' res'' where g: "finally_close closing closed w (Some e) = (t'', res'')"
      by (cases "finally_close closing closed w (Some e)") auto
    show ?thesis using run Raises f g fin [of None] fin [of "Some e"]
      by (simp add: guarded_def releases_append)
  next
    case Pending
    then show ?thesis using assms run by simp
  qed
qed

lemma producer_main_releases:
  assumes "snd (create_producer w) = Returns ()"
    and "snd (send_messages_interactive ucd (rounds w)) \<noteq> Pending"
  shows "releases (fst (producer_main ucd w)) =
     CloseChannel (close_channel w) #
     (case close_channel w of Inl e \<Rightarrow> [] | Inr u \<Rightarrow> [CloseClient (close_client w)])"
proof -
  obtain t1 where boot: "create_producer w = (t1, Returns ())"
    using assms(1) by (cases "create_producer w") auto
  have t1: "releases t1 = []" using create_producer_releases [of w] boot by simp
  obtain t2 res where g: "guarded (10 # py ''Producer interrupted by user'')
      (10 # py ''Closing producer and client...'') (py ''Producer closed successfully!'') w
      (send_messages_interactive ucd (rounds w)) = (t2, res)"
    by (cases "guarded (10 # py ''Producer interrupted by user'')
      (10 # py ''Closing producer and client...'') (py ''Producer closed successfully!'') w
      (send_messages_interactive ucd (rounds w))") auto
  have t2: "releases t2 =
     CloseChannel (close_channel w) #
     (case close_channel w of Inl e \<Rightarrow> [] | Inr u \<Rightarrow> [CloseClient (close_client w)])"
    using guarded_releases [OF assms(2), of "10 # py ''Producer interrupted by user''"
        "10 # py ''Closing producer and client...''" "py ''Producer closed successfully!''" w] g
    by (simp add: send_messages_interactive_releases)
  show ?thesis
    by (simp add: producer_main_def Let_def boot g releases_append t1 t2)
qed

lemma consumer_main_releases:
  assumes "snd (create_consumer w) = Returns ()"
    and "snd (consume_messages_continuous (rounds w)) \<noteq> Pending"
  shows "releases (fst (consumer_main w)) =
     CloseChannel (close_channel w) #
     (case close_channel w of Inl e \<Rightarrow> [] | Inr u \<Rightarrow> [CloseClient (close_client w)])"
proof -
  obtain t1 where boot: "create_consumer w = (t1, Returns ())"
    using assms(1) by (cases "create_consumer w") auto
  have t1: "releases t1 = []" using create_consumer_releases [of w] boot by simp
  obtain t2 res where g: "guarded (10 # py ''Consumer interrupted by user'')
      (10 # py ''Closing consumer and client...'') (py ''Consumer closed successfully!'') w
      (consume_messages_continuous (rounds w)) = (t2, res)"
    by (cases "guarded (10 # py ''Consumer interrupted by user'')
      (10 # py ''Closing consumer and client...'') (py ''Consumer closed successfully!'') w
      (consume_messages_continuous (rounds w))") auto
  have t2: "releases t2 =
     CloseChannel (close_channel w) #
     (case close_channel w of Inl e \<Rightarrow> [] | Inr u \<Rightarrow> [CloseClient (close_client w)])"
    using guarded_releases [OF assms(2), of "10 # py ''Consumer interrupted by user''"
        "10 # py ''Closing consumer and client...''" "py ''Consumer closed successfully!''" w] g
    by (simp add: consume_messages_continuous_releases)
  show ?thesis
    by (simp add: consumer_main_def Let_def boot g releases_append t1 t2)
qed

text \<open>
  C3, as the code has it. In both processes, once the session and the channel handle
  exist and the interaction loop has been left (by the exit keyword, end of input, an
  interrupt, or an exception on its way out), the \<open>finally\<close> block calls \<open>close()\<close> on
  the channel handle first and exactly once. When that call returns, \<open>close()\<close> on the
  client session follows, exactly once; when it raises, the session's \<open>close()\<close> is not
  called. No \<open>close()\<close> is called anywhere else.
\<close>

theorem shutdown_releases_in_order:
  "(snd (create_producer w) = Returns () \<and>
    snd (send_messages_interactive ucd (rounds w)) \<noteq> Pending \<longrightarrow>
      releases (fst (producer_main ucd w)) =
        CloseChannel (close_channel w) #
        (case close_channel w of Inl e \<Rightarrow> [] | Inr u \<Rightarrow> [CloseClient (close_client w)])) \<and>
   (snd (create_consumer w') = Returns () \<and>
    snd (consume_messages_continuous (rounds w')) \<noteq> Pending \<longrightarrow>
      releases (fst (consumer_main w')) =
        CloseChannel (close_channel w') #
        (case close_channel w' of Inl e \<Rightarrow> [] | Inr u \<Rightarrow> [CloseClient (close_client w')]))"
  using producer_main_releases [of w ucd] consumer_main_releases [of w'] by blast

lemma ready_world_fields:
  "rounds (ready_world token_path rs closing) = rs"
  "close_channel (ready_world token_path rs closing) = closing"
  "close_client (ready_world token_path rs closing) = Inr ()"
  by (simp_all add: ready_world_def)

lemma ready_world_boots:
  "snd (create_producer (ready_world (py ''tokens/client1-token.txt'') rs closing)) = Returns ()"
  "snd (create_consumer (ready_world (py ''tokens/client2-token.txt'') rs closing)) = Returns ()"
proof -
  have p: "read_token_from_file (py ''/'')
      (token_files (py ''tokens/client1-token.txt'') (py ''abc123'' @ nl))
      (py ''tokens/client1-token.txt'') =
      ([OpenFile (py ''tokens/client1-token.txt'')], Returns (py ''abc123''))"
    by (simp add: read_token_from_file_def token_files_def text_eval)
  have c: "read_token_from_file (py ''/'')
      (token_files (py ''tokens/client2-token.txt'') (py ''abc123'' @ nl))
      (py ''tokens/client2-token.txt'') =
      ([OpenFile (py ''tokens/client2-token.txt'')], Returns (py ''abc123''))"
    by (simp add: read_token_from_file_def token_files_def text_eval)
  show "snd (create_producer (ready_world (py ''tokens/client1-token.txt'') rs closing)) =
      Returns ()"
    by (simp add: create_producer_def ready_world_def p Let_def)
  show "snd (create_consumer (ready_world (py ''tokens/client2-token.txt'') rs closing)) =
      Returns ()"
    by (simp add: create_consumer_def ready_world_def c Let_def)
qed

lemma hello_then_exit_returns:
  "snd (send_messages_interactive caseless_table [types (py ''hello''), types (py ''exit'')]) =
     Returns ()"
  by (simp add: send_messages_interactive_def round_hello round_exit Let_def)

lemma exit_returns:
  "snd (send_messages_interactive caseless_table [types (py ''exit'')]) = Returns ()"
  by (simp add: send_messages_interactive_def round_exit Let_def)

lemma round_ctrl_c:
  "receive_round ctrl_c n =
     (Propagate KeyboardInterrupt, n, [Receive 5000 (Inl KeyboardInterrupt)])"
  by (simp add: receive_round_def receive_except_def ctrl_c_def)

lemma timeout_then_ctrl_c_returns:
  "snd (consume_messages_continuous [timeout_at 3, ctrl_c]) = Returns ()"
  by (simp add: consume_messages_continuous_def round_timeout_at round_ctrl_c Let_def)

theorem shutdown_releases_in_order_witness:
  "snd (create_producer (ready_world (py ''tokens/client1-token.txt'')
          [types (py ''hello''), types (py ''exit'')] (Inr ()))) = Returns () \<and>
   snd (send_messages_interactive caseless_table
          (rounds (ready_world (py ''tokens/client1-token.txt'')
             [types (py ''hello''), types (py ''exit'')] (Inr ())))) = Returns () \<and>
   releases (fst (producer_main caseless_table (ready_world (py ''tokens/client1-token.txt'')
          [types (py ''hello''), types (py ''exit'')] (Inr ())))) =
     [CloseChannel (Inr ()), CloseClient (Inr ())] \<and>
   snd (create_consumer (ready_world (py ''tokens/client2-token.txt'')
          [timeout_at 3, ctrl_c] (Inr ()))) = Returns () \<and>
   snd (consume_messages_continuous
          (rounds (ready_world (py ''tokens/client2-token.txt'')
             [timeout_at 3, ctrl_c] (Inr ())))) = Returns () \<and>
   releases (fst (consumer_main (ready_world (py ''tokens/client2-token.txt'')
          [timeout_at 3, ctrl_c] (Inr ())))) =
     [CloseChannel (Inr ()), CloseClient (Inr ())]"
  using shutdown_releases_in_order
    [of "ready_world (py ''tokens/client1-token.txt'')
           [types (py ''hello''), types (py ''exit'')] (Inr ())"
        caseless_table
        "ready_world (py ''tokens/client2-token.txt'') [timeout_at 3, ctrl_c] (Inr ())"]
  by (simp add: ready_world_boots ready_world_fields hello_then_exit_returns
      timeout_then_ctrl_c_returns)

text \<open>
  The operator types \<open>exit\<close> and \<open>producer.close()\<close> raises: the only release is the
  attempt on the channel handle, and the client session is never closed.
\<close>

theorem session_not_released_counterexample:
  "snd (create_producer (ready_world (py ''tokens/client1-token.txt'') [types (py ''exit'')]
          (Inl (Error (py ''Pulsar error: AlreadyClosed''))))) = Returns () \<and>
   snd (send_messages_interactive caseless_table
          (rounds (ready_world (py ''tokens/client1-token.txt'') [types (py ''exit'')]
             (Inl (Error (py ''Pulsar error: AlreadyClosed'')))))) = Returns () \<and>
   releases (fst (producer_main caseless_table
          (ready_world (py ''tokens/client1-token.txt'') [types (py ''exit'')]
             (Inl (Error (py ''Pulsar error: AlreadyClosed'')))))) =
     [CloseChannel (Inl (Error (py ''Pulsar error: AlreadyClosed'')))]"
proof -
  let ?w = "ready_world (py ''tokens/client1-token.txt'') [types (py ''exit'')]
      (Inl (Error (py ''Pulsar error: AlreadyClosed'')))"
  have boot: "snd (create_producer ?w) = Returns ()" by (rule ready_world_boots)
  have left: "snd (send_messages_interactive caseless_table (rounds ?w)) = Returns ()"
    by (simp add: ready_world_fields exit_returns)
  have "snd (send_messages_interactive caseless_table (rounds ?w)) \<noteq> Pending"
    using left by simp
  from producer_main_releases [OF boot this]
  have "releases (fst (producer_main caseless_table ?w)) =
      [CloseChannel (Inl (Error (py ''Pulsar error: AlreadyClosed'')))]"
    by (simp add: ready_world_fields)
  then show ?thesis using boot left by simp
qed

end
